theory Spec2Isabelle
  imports Main "HOL-Library.AList"
begin

section \<open>Python built-ins used by the engine\<close>

text \<open>
  Strings are lists of characters, a character standing for a code point from 0 to 255.
  \<open>str.strip\<close>, \<open>str.split\<close>, \<open>str.upper\<close>, \<open>str.join\<close>, \<open>int\<close> and the \<open>02d\<close> format
  are written out below as Python has them on these code points. Two letters have an upper
  case beyond code point 255 (the micro sign and the y with diaeresis): \<open>py_upper\<close> leaves
  them as they are.
\<close>

datatype exn =
    ValueError string
  | KeyError string
  | IndexError string
  | ReError string

text \<open>\<open>str(e)\<close> of an exception: a \<open>KeyError\<close> prints the repr of its key.\<close>

fun str_exn :: "exn \<Rightarrow> string" where
  "str_exn (ValueError m) = m"
| "str_exn (KeyError k) = [CHR 0x27] @ k @ [CHR 0x27]"
| "str_exn (IndexError m) = m"
| "str_exn (ReError m) = m"

text \<open>
  The whitespace of \<open>str.strip\<close> and \<open>int\<close>: tab to carriage return, the four separator
  controls, the space, next line (U+0085) and the no-break space (U+00A0).
\<close>

definition is_space :: "char \<Rightarrow> bool" where
  "is_space c \<longleftrightarrow> c \<in> set [CHR 0x09, CHR 0x0A, CHR 0x0B, CHR 0x0C, CHR 0x0D,
                           CHR 0x1C, CHR 0x1D, CHR 0x1E, CHR 0x1F, CHR 0x20,
                           CHR 0x85, CHR 0xA0]"

definition py_strip :: "string \<Rightarrow> string" where
  "py_strip s = rev (dropWhile is_space (rev (dropWhile is_space s)))"

text \<open>\<open>s.split(c)\<close> for a one-character separator: never the empty list.\<close>

fun py_split :: "char \<Rightarrow> string \<Rightarrow> string list" where
  "py_split c [] = [[]]"
| "py_split c (x # xs) =
     (if x = c then [] # py_split c xs
      else (case py_split c xs of
              [] \<Rightarrow> [[x]]
            | w # ws \<Rightarrow> (x # w) # ws))"

fun py_join :: "string \<Rightarrow> string list \<Rightarrow> string" where
  "py_join sep [] = []"
| "py_join sep [x] = x"
| "py_join sep (x # y # ys) = x @ sep @ py_join sep (y # ys)"

text \<open>
  The upper case of one character: the letters a to z and the accented letters from
  U+00E0 to U+00FE (the division sign apart) move down by 32, the sharp s becomes SS.
\<close>

definition upper_char :: "char \<Rightarrow> string" where
  "upper_char c =
     (let n = (of_char c :: nat) in
      if (97 \<le> n \<and> n \<le> 122) \<or> (224 \<le> n \<and> n \<le> 254 \<and> n \<noteq> 247) then [char_of (n - 32)]
      else if n = 223 then ''SS''
      else [c])"

definition py_upper :: "string \<Rightarrow> string" where
  "py_upper s = concat (map upper_char s)"

definition digit_char :: "nat \<Rightarrow> char" where
  "digit_char d = char_of (48 + d)"

fun str_nat :: "nat \<Rightarrow> string" where
  "str_nat n = (if n < 10 then [digit_char n] else str_nat (n div 10) @ [digit_char (n mod 10)])"

declare str_nat.simps [simp del]

text \<open>
  \<open>str(i)\<close> for an integer. The integers the engine prints are counts of segments and
  numbers read from the rule files, which the JSON reader has already passed through
  \<open>int\<close>; none of them reaches the digit limit of \<open>str\<close>.
\<close>

definition py_str_int :: "int \<Rightarrow> string" where
  "py_str_int i = (if i < 0 then CHR ''-'' # str_nat (nat (- i)) else str_nat (nat i))"

text \<open>The format \<open>{i:02d}\<close>: zero-padded to width two, the sign counting as one column.\<close>

definition fmt_02d :: "int \<Rightarrow> string" where
  "fmt_02d i = (if 0 \<le> i \<and> i < 10 then CHR ''0'' # py_str_int i else py_str_int i)"

definition is_digit :: "char \<Rightarrow> bool" where
  "is_digit c \<longleftrightarrow> (let n = (of_char c :: nat) in 48 \<le> n \<and> n \<le> 57)"

definition digit_val :: "char \<Rightarrow> int" where
  "digit_val c = int (of_char c) - 48"

text \<open>
  The digits of a decimal literal as \<open>int\<close> accepts them: at least one digit, single
  underscores allowed between digits only. \<open>after_digit\<close> tells whether the previous
  character was a digit.
\<close>

fun parse_digits :: "bool \<Rightarrow> int \<Rightarrow> string \<Rightarrow> int option" where
  "parse_digits after_digit acc [] = (if after_digit then Some acc else None)"
| "parse_digits after_digit acc (c # cs) =
     (if is_digit c then parse_digits True (acc * 10 + digit_val c) cs
      else if c = CHR ''_'' \<and> after_digit \<and> cs \<noteq> [] \<and> is_digit (hd cs)
        then parse_digits False acc cs
      else None)"

text \<open>
  The default limit of \<open>int\<close> on the digits of a decimal string
  (\<open>sys.int_max_str_digits\<close>); the sign and the underscores do not count.
\<close>

definition MAX_STR_DIGITS :: nat where
  "MAX_STR_DIGITS = 4300"

text \<open>
  \<open>int(s)\<close> on a string; \<open>None\<close> stands for the \<open>ValueError\<close> it raises, for a string that
  is not a decimal literal and for one with more digits than the limit.
\<close>

definition py_int :: "string \<Rightarrow> int option" where
  "py_int s =
     (case py_strip s of
        [] \<Rightarrow> None
      | c # cs \<Rightarrow>
          if length (filter is_digit (c # cs)) > MAX_STR_DIGITS then None
          else if c = CHR ''+'' then parse_digits False 0 cs
          else if c = CHR ''-'' then map_option uminus (parse_digits False 0 cs)
          else parse_digits False 0 (c # cs))"

text \<open>The \<open>ValueError\<close> of \<open>int\<close>; its message quotes the offending string.\<close>

definition int_value_error :: "string \<Rightarrow> exn" where
  "int_value_error s =
     ValueError (''invalid literal for int() with base 10: '' @ [CHR 0x27] @ s @ [CHR 0x27])"

text \<open>An absent value prints as \<open>None\<close> inside an f-string.\<close>

definition str_opt :: "string option \<Rightarrow> string" where
  "str_opt v = (case v of None \<Rightarrow> ''None'' | Some s \<Rightarrow> s)"

text \<open>\<open>d[k]\<close> on a dictionary: a missing key raises \<open>KeyError\<close>.\<close>

definition require_key :: "string \<Rightarrow> 'a option \<Rightarrow> exn + 'a" where
  "require_key k v = (case v of None \<Rightarrow> Inl (KeyError k) | Some x \<Rightarrow> Inr x)"

text \<open>Truthiness of an optional string: present and not empty.\<close>

definition truthy_str :: "string option \<Rightarrow> bool" where
  "truthy_str v \<longleftrightarrow> (case v of None \<Rightarrow> False | Some s \<Rightarrow> s \<noteq> [])"

text \<open>Truthiness of an optional integer: present and not zero.\<close>

definition truthy_int :: "int option \<Rightarrow> bool" where
  "truthy_int v \<longleftrightarrow> (case v of None \<Rightarrow> False | Some n \<Rightarrow> n \<noteq> 0)"

text \<open>A loop body applied to each item in turn; an exception ends the loop.\<close>

fun map_exn :: "('a \<Rightarrow> exn + 'b) \<Rightarrow> 'a list \<Rightarrow> exn + 'b list" where
  "map_exn f [] = Inr []"
| "map_exn f (x # xs) =
     (case f x of
        Inl e \<Rightarrow> Inl e
      | Inr y \<Rightarrow> (case map_exn f xs of Inl e \<Rightarrow> Inl e | Inr ys \<Rightarrow> Inr (y # ys)))"

text \<open>Python list indexing, negative indices counting from the end.\<close>

definition py_index :: "'a list \<Rightarrow> int \<Rightarrow> exn + 'a" where
  "py_index xs i =
     (if 0 \<le> i \<and> i < int (length xs) then Inr (xs ! nat i)
      else if i < 0 \<and> - int (length xs) \<le> i then Inr (xs ! nat (int (length xs) + i))
      else Inl (IndexError ''list index out of range''))"

section \<open>Issue collector (error_collector.py)\<close>

text \<open>
  A \<open>ValidationError\<close>; the creation timestamp is left out. The same record carries the
  arguments of \<open>add_error\<close>, whose severity is stored upper-cased.
\<close>

record issue =
  rule_id :: string
  severity :: string
  message :: string
  segment_id :: "string option"
  line_number :: "int option"
  element_position :: "int option"
  expected_value :: "string option"
  actual_value :: "string option"
  issue_context :: "(string \<times> string) list"

record collector =
  errors :: "issue list"
  warnings :: "issue list"
  info :: "issue list"

definition ErrorCollector :: collector where
  "ErrorCollector = \<lparr>errors = [], warnings = [], info = []\<rparr>"

definition ValidationError :: "issue \<Rightarrow> issue" where
  "ValidationError a = a\<lparr>severity := py_upper (severity a)\<rparr>"

definition add_error :: "issue \<Rightarrow> collector \<Rightarrow> collector" where
  "add_error a c =
     (let error = ValidationError a in
      if py_upper (severity a) = ''ERROR'' then c\<lparr>errors := errors c @ [error]\<rparr>
      else if py_upper (severity a) = ''WARNING'' then c\<lparr>warnings := warnings c @ [error]\<rparr>
      else c\<lparr>info := info c @ [error]\<rparr>)"

definition get_all_errors :: "collector \<Rightarrow> issue list" where
  "get_all_errors c = errors c @ warnings c @ info c"

definition has_errors :: "collector \<Rightarrow> bool" where
  "has_errors c \<longleftrightarrow> length (errors c) > 0"

definition has_warnings :: "collector \<Rightarrow> bool" where
  "has_warnings c \<longleftrightarrow> length (warnings c) > 0"

text \<open>Adding several issues one after the other.\<close>

definition add_errors :: "issue list \<Rightarrow> collector \<Rightarrow> collector" where
  "add_errors as c = fold add_error as c"

section \<open>Splitter (segment_utils.py)\<close>

definition SEGMENT_TERMINATOR :: char where
  "SEGMENT_TERMINATOR = CHR ''~''"

definition ELEMENT_SEPARATOR :: char where
  "ELEMENT_SEPARATOR = CHR ''*''"

definition SUBELEMENT_SEPARATOR :: char where
  "SUBELEMENT_SEPARATOR = CHR '':''"

text \<open>\<open>s.replace('\r\n', '\n')\<close>, scanning left to right.\<close>

fun replace_crlf :: "string \<Rightarrow> string" where
  "replace_crlf [] = []"
| "replace_crlf [x] = [x]"
| "replace_crlf (x # y # ys) =
     (if x = CHR 0x0D \<and> y = CHR 0x0A then CHR 0x0A # replace_crlf ys
      else x # replace_crlf (y # ys))"

text \<open>\<open>s.replace('\r', '\n')\<close>.\<close>

definition replace_cr :: "string \<Rightarrow> string" where
  "replace_cr s = map (\<lambda>c. if c = CHR 0x0D then CHR 0x0A else c) s"

definition normalize_edi_text :: "string \<Rightarrow> string" where
  "normalize_edi_text raw_text =
     (let normalized = py_strip raw_text;
          normalized = replace_cr (replace_crlf normalized);
          lines = map py_strip (filter (\<lambda>l. py_strip l \<noteq> []) (py_split (CHR 0x0A) normalized))
      in py_join [CHR 0x0A] lines)"

definition split_segments :: "string \<Rightarrow> char \<Rightarrow> string list" where
  "split_segments edi_text segment_terminator =
     (let normalized = normalize_edi_text edi_text;
          segs = py_split segment_terminator normalized
      in map py_strip (filter (\<lambda>seg. py_strip seg \<noteq> []) segs))"

definition split_elements :: "string \<Rightarrow> char \<Rightarrow> string list" where
  "split_elements seg element_separator = py_split element_separator seg"

definition split_subelements :: "string \<Rightarrow> char \<Rightarrow> string list" where
  "split_subelements element subelement_separator =
     (if subelement_separator \<in> set element then py_split subelement_separator element
      else [element])"

definition get_segment_id :: "string \<Rightarrow> string" where
  "get_segment_id seg =
     (let elements = split_elements seg ELEMENT_SEPARATOR
      in case elements of [] \<Rightarrow> [] | e # _ \<Rightarrow> e)"

definition get_element_value :: "string \<Rightarrow> nat \<Rightarrow> string \<Rightarrow> string" where
  "get_element_value seg position dflt =
     (let elements = split_elements seg ELEMENT_SEPARATOR
      in if position < length elements
         then (let v = py_strip (elements ! position) in if v \<noteq> [] then v else dflt)
         else dflt)"

record control_numbers =
  interchange_control :: string
  group_control :: string
  transaction_control :: string

definition extract_control_numbers :: "string list \<Rightarrow> control_numbers" where
  "extract_control_numbers segs =
     fold (\<lambda>seg cn.
             let sid = get_segment_id seg in
             if sid = ''ISA'' then cn\<lparr>interchange_control := get_element_value seg 13 []\<rparr>
             else if sid = ''GS'' then cn\<lparr>group_control := get_element_value seg 6 []\<rparr>
             else if sid = ''ST'' then cn\<lparr>transaction_control := get_element_value seg 2 []\<rparr>
             else cn)
          segs
          \<lparr>interchange_control = [], group_control = [], transaction_control = []\<rparr>"

section \<open>Document builder (edi_parser.py)\<close>

text \<open>A parsed segment, with the keys the parser gives every segment.\<close>

record seg =
  s_line :: int
  s_segment_id :: string
  s_elements :: "string list"
  s_element_count :: nat
  s_raw :: string

record metadata =
  m_doc_type :: string
  m_version :: string
  m_sender_id :: string
  m_receiver_id :: string
  m_interchange_date :: string
  m_interchange_time :: string
  m_control_numbers :: control_numbers
  m_functional_group :: string

record statistics =
  total_segments :: nat
  segment_counts :: "(string \<times> nat) list"
  has_envelope :: bool

record parsed_edi =
  p_metadata :: metadata
  p_segments :: "seg list"
  p_statistics :: statistics

definition extract_metadata :: "string list \<Rightarrow> metadata" where
  "extract_metadata segs =
     (let md = fold (\<lambda>segment_str md.
                 let sid = get_segment_id segment_str in
                 if sid = ''ISA'' then
                   md\<lparr>m_sender_id := py_strip (get_element_value segment_str 6 []),
                      m_receiver_id := py_strip (get_element_value segment_str 8 []),
                      m_interchange_date := get_element_value segment_str 9 [],
                      m_interchange_time := get_element_value segment_str 10 [],
                      m_version := get_element_value segment_str 12 []\<rparr>
                 else if sid = ''GS'' then
                   md\<lparr>m_functional_group := get_element_value segment_str 1 []\<rparr>
                 else if sid = ''ST'' then
                   md\<lparr>m_doc_type := get_element_value segment_str 1 []\<rparr>
                 else md)
               segs
               \<lparr>m_doc_type = [], m_version = [], m_sender_id = [], m_receiver_id = [],
                m_interchange_date = [], m_interchange_time = [],
                m_control_numbers =
                  \<lparr>interchange_control = [], group_control = [], transaction_control = []\<rparr>,
                m_functional_group = []\<rparr>
      in md\<lparr>m_control_numbers := extract_control_numbers segs\<rparr>)"

text \<open>The loop of \<open>_parse_all_segments\<close>, the next line number carried along.\<close>

fun parse_segments_from :: "int \<Rightarrow> string list \<Rightarrow> seg list" where
  "parse_segments_from line_no [] = []"
| "parse_segments_from line_no (segment_str # rest) =
     (let elements = split_elements segment_str ELEMENT_SEPARATOR in
      case elements of
        [] \<Rightarrow> parse_segments_from line_no rest
      | e0 # _ \<Rightarrow>
          \<lparr>s_line = line_no, s_segment_id = e0, s_elements = elements,
           s_element_count = length elements, s_raw = segment_str\<rparr>
          # parse_segments_from (line_no + 1) rest)"

definition parse_all_segments :: "string list \<Rightarrow> seg list" where
  "parse_all_segments segs = parse_segments_from 1 segs"

definition has_complete_envelope :: "seg list \<Rightarrow> bool" where
  "has_complete_envelope sgs \<longleftrightarrow>
     set [''ISA'', ''GS'', ''ST'', ''SE'', ''GE'', ''IEA''] \<subseteq> set (map s_segment_id sgs)"

definition calculate_statistics :: "seg list \<Rightarrow> statistics" where
  "calculate_statistics sgs =
     \<lparr>total_segments = length sgs,
      segment_counts =
        fold (\<lambda>sg counts.
                AList.update (s_segment_id sg)
                  ((case map_of counts (s_segment_id sg) of None \<Rightarrow> 0 | Some n \<Rightarrow> n) + 1) counts)
             sgs [],
      has_envelope = has_complete_envelope sgs\<rparr>"

definition build_parsed_structure :: "string list \<Rightarrow> parsed_edi" where
  "build_parsed_structure segs =
     (let md = extract_metadata segs;
          parsed_segments = parse_all_segments segs;
          stats = calculate_statistics parsed_segments
      in \<lparr>p_metadata = md, p_segments = parsed_segments, p_statistics = stats\<rparr>)"

definition parse_text :: "string \<Rightarrow> exn + parsed_edi" where
  "parse_text edi_text =
     (if edi_text = [] \<or> py_strip edi_text = [] then Inl (ValueError ''EDI text is empty'')
      else
        let normalized_text = normalize_edi_text edi_text;
            segs = split_segments normalized_text SEGMENT_TERMINATOR
        in if segs = [] then Inl (ValueError ''No segments found in EDI text'')
           else Inr (build_parsed_structure segs))"

section \<open>Rules and rule tiers (rule_loader.py)\<close>

text \<open>
  A rule is a JSON object. Each key the engine reads is a field; \<open>None\<close> stands for an
  absent key. Numbers are integers, as the rule files write them.
\<close>

record validations =
  v_required :: bool
  v_min_length :: "int option"
  v_max_length :: "int option"
  v_allowed_values :: "string list option"
  v_regex :: "string option"

text \<open>
  The \<open>conditional\<close> object of an element rule; \<open>c_other_keys\<close> tells whether it has keys
  besides the two the engine reads.
\<close>

record conditional =
  c_other_keys :: bool
  c_if_element :: "int option"
  c_equals :: "string option"

text \<open>Truthiness of the object: it has a key.\<close>

definition conditional_truthy :: "conditional \<Rightarrow> bool" where
  "conditional_truthy cnd \<longleftrightarrow> c_other_keys cnd \<or> c_if_element cnd \<noteq> None \<or> c_equals cnd \<noteq> None"

record condition =
  if_segment :: "string option"
  if_element :: "int option"
  if_value :: "string option"
  if_value_exists :: bool

record required_element =
  re_segment :: "string option"
  re_element :: "int option"

record then_clause =
  th_required_segments :: "string list"
  th_within_loop :: "string option"
  th_required_element :: "required_element option"
  th_message :: "string option"

record match_pair =
  segment_1 :: "string option"
  element_1 :: "int option"
  segment_2 :: "string option"
  element_2 :: "int option"

record validation_logic =
  l_type :: "string option"
  l_source_segment :: "string option"
  l_target_segment :: "string option"
  l_target_element :: "int option"
  l_message :: "string option"
  l_match_pairs :: "match_pair list"
  l_segment_id :: "string option"
  l_element_position :: "int option"
  l_required_value :: "string option"

record rule =
  r_rule_id :: "string option"
  r_severity :: "string option"
  r_description :: "string option"
  r_segment_id :: "string option"
  r_min_occurrences :: "int option"
  r_max_occurrences :: "int option"
  r_element_filters :: "(string \<times> string) list"
  r_element_position :: "int option"
  r_validations :: "validations option"
  r_conditional :: "conditional option"
  r_condition :: "condition option"
  r_then :: "then_clause option"
  r_validation_logic :: "validation_logic option"
  r_applies_to_doc_types :: "string list option"

record override =
  o_rule_id :: "string option"
  o_override_type :: "string option"
  o_new_severity :: "string option"
  o_new_allowed_values :: "string list option"

text \<open>
  One tier as loaded from its file. \<open>t_other_keys\<close> tells whether the object has keys
  besides the ones below (\<open>ruleset_info\<close>, for one); entries of the two optional
  categories are kept as text.
\<close>

record tier =
  t_other_keys :: bool
  t_required_segments :: "rule list option"
  t_element_rules :: "rule list option"
  t_conditional_rules :: "rule list option"
  t_cross_segment_rules :: "rule list option"
  t_overrides :: "override list option"
  t_segment_sequences :: "string list option"
  t_business_rules :: "string list option"

definition empty_tier :: tier where
  "empty_tier =
     \<lparr>t_other_keys = False, t_required_segments = None, t_element_rules = None,
      t_conditional_rules = None, t_cross_segment_rules = None, t_overrides = None,
      t_segment_sequences = None, t_business_rules = None\<rparr>"

text \<open>Truthiness of a tier: the dictionary is not empty.\<close>

definition tier_truthy :: "tier \<Rightarrow> bool" where
  "tier_truthy t \<longleftrightarrow>
     t_other_keys t \<or> t_required_segments t \<noteq> None \<or> t_element_rules t \<noteq> None
     \<or> t_conditional_rules t \<noteq> None \<or> t_cross_segment_rules t \<noteq> None
     \<or> t_overrides t \<noteq> None \<or> t_segment_sequences t \<noteq> None \<or> t_business_rules t \<noteq> None"

datatype category = Required_segments | Element_rules | Conditional_rules | Cross_segment_rules

text \<open>\<open>tier.get(category, [])\<close>.\<close>

fun tier_get :: "tier \<Rightarrow> category \<Rightarrow> rule list" where
  "tier_get t Required_segments = (case t_required_segments t of None \<Rightarrow> [] | Some rs \<Rightarrow> rs)"
| "tier_get t Element_rules = (case t_element_rules t of None \<Rightarrow> [] | Some rs \<Rightarrow> rs)"
| "tier_get t Conditional_rules = (case t_conditional_rules t of None \<Rightarrow> [] | Some rs \<Rightarrow> rs)"
| "tier_get t Cross_segment_rules = (case t_cross_segment_rules t of None \<Rightarrow> [] | Some rs \<Rightarrow> rs)"

record ruleset_info =
  ri_name :: string
  ri_doc_type :: string
  ri_retailer :: string
  ri_rulesets_applied :: "string list"

record ruleset =
  rs_ruleset_info :: ruleset_info
  rs_required_segments :: "rule list"
  rs_element_rules :: "rule list"
  rs_conditional_rules :: "rule list"
  rs_cross_segment_rules :: "rule list"
  rs_segment_sequences :: "string list option"
  rs_business_rules :: "string list option"

fun ruleset_get :: "ruleset \<Rightarrow> category \<Rightarrow> rule list" where
  "ruleset_get m Required_segments = rs_required_segments m"
| "ruleset_get m Element_rules = rs_element_rules m"
| "ruleset_get m Conditional_rules = rs_conditional_rules m"
| "ruleset_get m Cross_segment_rules = rs_cross_segment_rules m"

text \<open>
  \<open>category_rules[rule_id] = rule\<close> when the rule has a (non-empty) id. The dictionary
  keeps insertion order: an existing key keeps its place, a new key goes last.
\<close>

definition insert_rule :: "rule \<Rightarrow> (string \<times> rule) list \<Rightarrow> (string \<times> rule) list" where
  "insert_rule r category_rules =
     (case r_rule_id r of
        None \<Rightarrow> category_rules
      | Some rid \<Rightarrow> if rid \<noteq> [] then AList.update rid r category_rules else category_rules)"

text \<open>The retailer loop: the rule is taken only if it applies to the document type.\<close>

definition applies_to_doc :: "string \<Rightarrow> rule \<Rightarrow> bool" where
  "applies_to_doc dt r \<longleftrightarrow>
     (let applies_to = (case r_applies_to_doc_types r of None \<Rightarrow> [] | Some ts \<Rightarrow> ts)
      in applies_to = [] \<or> dt \<in> set applies_to)"

definition insert_retailer_rule ::
  "string \<Rightarrow> rule \<Rightarrow> (string \<times> rule) list \<Rightarrow> (string \<times> rule) list" where
  "insert_retailer_rule dt r category_rules =
     (case r_rule_id r of
        None \<Rightarrow> category_rules
      | Some rid \<Rightarrow>
          if rid \<noteq> [] then
            (if applies_to_doc dt r then AList.update rid r category_rules else category_rules)
          else category_rules)"

text \<open>The dictionary \<open>category_rules\<close> after the three loops of one category.\<close>

definition category_rules_of ::
  "rule list \<Rightarrow> rule list \<Rightarrow> rule list \<Rightarrow> string \<Rightarrow> (string \<times> rule) list" where
  "category_rules_of core_rules doc_rules ret_rules dt =
     fold (insert_retailer_rule dt) ret_rules (fold insert_rule doc_rules (fold insert_rule core_rules []))"

definition merge_category :: "rule list \<Rightarrow> rule list \<Rightarrow> rule list \<Rightarrow> string \<Rightarrow> rule list" where
  "merge_category core_rules doc_rules ret_rules dt =
     map snd (category_rules_of core_rules doc_rules ret_rules dt)"

text \<open>One override directive applied to one rule of the merged ruleset.\<close>

definition apply_override_rule :: "override \<Rightarrow> rule \<Rightarrow> exn + rule" where
  "apply_override_rule ov r =
     (if r_rule_id r = o_rule_id ov then
        (if o_override_type ov = Some ''severity_escalation'' then
           (case o_new_severity ov of
              None \<Rightarrow> Inl (KeyError ''new_severity'')
            | Some sev \<Rightarrow> Inr (r\<lparr>r_severity := Some sev\<rparr>))
         else if o_override_type ov = Some ''add_allowed_value'' then
           (case r_validations r of
              None \<Rightarrow> Inr r
            | Some v \<Rightarrow>
                (case v_allowed_values v of
                   None \<Rightarrow> Inr r
                 | Some av \<Rightarrow>
                     Inr (r\<lparr>r_validations :=
                            Some (v\<lparr>v_allowed_values :=
                              Some (av @ (case o_new_allowed_values ov of
                                            None \<Rightarrow> [] | Some n \<Rightarrow> n))\<rparr>)\<rparr>)))
         else Inr r)
      else Inr r)"

text \<open>One directive over every list of the ruleset, in key order.\<close>

definition apply_override :: "override \<Rightarrow> ruleset \<Rightarrow> exn + ruleset" where
  "apply_override ov m =
     (if \<not> truthy_str (o_rule_id ov) \<or> \<not> truthy_str (o_override_type ov) then Inr m
      else
        case map_exn (apply_override_rule ov) (rs_required_segments m) of
          Inl e \<Rightarrow> Inl e
        | Inr rq \<Rightarrow>
        case map_exn (apply_override_rule ov) (rs_element_rules m) of
          Inl e \<Rightarrow> Inl e
        | Inr el \<Rightarrow>
        case map_exn (apply_override_rule ov) (rs_conditional_rules m) of
          Inl e \<Rightarrow> Inl e
        | Inr cd \<Rightarrow>
        case map_exn (apply_override_rule ov) (rs_cross_segment_rules m) of
          Inl e \<Rightarrow> Inl e
        | Inr cs \<Rightarrow>
            Inr (m\<lparr>rs_required_segments := rq, rs_element_rules := el,
                   rs_conditional_rules := cd, rs_cross_segment_rules := cs\<rparr>))"

fun apply_overrides :: "ruleset \<Rightarrow> override list \<Rightarrow> exn + ruleset" where
  "apply_overrides m [] = Inr m"
| "apply_overrides m (ov # ovs) =
     (case apply_override ov m of Inl e \<Rightarrow> Inl e | Inr m' \<Rightarrow> apply_overrides m' ovs)"

text \<open>The optional categories: the document tier's list, then the retailer's appended.\<close>

definition merge_optional :: "string list option \<Rightarrow> string list option \<Rightarrow> string list option" where
  "merge_optional doc_cat ret_cat =
     (case ret_cat of
        None \<Rightarrow> doc_cat
      | Some rc \<Rightarrow> Some ((case doc_cat of None \<Rightarrow> [] | Some dc \<Rightarrow> dc) @ rc))"

definition merge_rulesets ::
  "tier \<Rightarrow> tier \<Rightarrow> tier \<Rightarrow> string \<Rightarrow> string option \<Rightarrow> exn + ruleset" where
  "merge_rulesets core doc ret dt retailer =
     (let applied = (if tier_truthy core then [''x12_core''] else [])
                    @ (if tier_truthy doc then [''doc_'' @ dt] else [])
                    @ (if tier_truthy ret then [''retailer_'' @ str_opt retailer] else []);
          merged =
            \<lparr>rs_ruleset_info =
               \<lparr>ri_name = ''Merged Ruleset: '' @ dt, ri_doc_type = dt,
                ri_retailer = (if truthy_str retailer then str_opt retailer else ''none''),
                ri_rulesets_applied = applied\<rparr>,
             rs_required_segments =
               merge_category (tier_get core Required_segments) (tier_get doc Required_segments)
                 (tier_get ret Required_segments) dt,
             rs_element_rules =
               merge_category (tier_get core Element_rules) (tier_get doc Element_rules)
                 (tier_get ret Element_rules) dt,
             rs_conditional_rules =
               merge_category (tier_get core Conditional_rules) (tier_get doc Conditional_rules)
                 (tier_get ret Conditional_rules) dt,
             rs_cross_segment_rules =
               merge_category (tier_get core Cross_segment_rules) (tier_get doc Cross_segment_rules)
                 (tier_get ret Cross_segment_rules) dt,
             rs_segment_sequences = None,
             rs_business_rules = None\<rparr>
      in case (case t_overrides ret of
                 None \<Rightarrow> Inr merged
               | Some ovs \<Rightarrow> apply_overrides merged ovs) of
           Inl e \<Rightarrow> Inl e
         | Inr m \<Rightarrow>
             Inr (m\<lparr>rs_segment_sequences :=
                      merge_optional (t_segment_sequences doc) (t_segment_sequences ret),
                    rs_business_rules :=
                      merge_optional (t_business_rules doc) (t_business_rules ret)\<rparr>))"

section \<open>Rule evaluators (rule_evaluators.py)\<close>

text \<open>
  An evaluator works on the shared collector and may raise: its outcome is the exception,
  if any, and the collector as the evaluator left it.
\<close>

type_synonym outcome = "exn option \<times> collector"

fun for_each :: "('a \<Rightarrow> collector \<Rightarrow> outcome) \<Rightarrow> 'a list \<Rightarrow> collector \<Rightarrow> outcome" where
  "for_each body [] c = (None, c)"
| "for_each body (x # xs) c =
     (case body x c of
        (Some e, c') \<Rightarrow> (Some e, c')
      | (None, c') \<Rightarrow> for_each body xs c')"

text \<open>Sequencing of two statements.\<close>

definition then_do :: "outcome \<Rightarrow> (collector \<Rightarrow> outcome) \<Rightarrow> outcome" where
  "then_do r next_stmt = (case r of (Some e, c) \<Rightarrow> (Some e, c) | (None, c) \<Rightarrow> next_stmt c)"

text \<open>The arguments of \<open>add_error\<close> with every optional one at its default.\<close>

definition new_issue :: "string \<Rightarrow> string \<Rightarrow> string \<Rightarrow> issue" where
  "new_issue rid sev msg =
     \<lparr>rule_id = rid, severity = sev, message = msg, segment_id = None, line_number = None,
      element_position = None, expected_value = None, actual_value = None, issue_context = []\<rparr>"

text \<open>
  \<open>add_error(rule_id=rule["rule_id"], severity=rule["severity"], ...)\<close>: the two keys are
  read first, in this order, and a missing one raises \<open>KeyError\<close>.
\<close>

definition add_rule_error :: "rule \<Rightarrow> (string \<Rightarrow> string \<Rightarrow> issue) \<Rightarrow> collector \<Rightarrow> outcome" where
  "add_rule_error r mk c =
     (case require_key ''rule_id'' (r_rule_id r) of
        Inl e \<Rightarrow> (Some e, c)
      | Inr rid \<Rightarrow>
          (case require_key ''severity'' (r_severity r) of
             Inl e \<Rightarrow> (Some e, c)
           | Inr sev \<Rightarrow> (None, add_error (mk rid sev) c)))"

subsection \<open>RequiredSegmentValidator\<close>

fun matches_filters :: "string list \<Rightarrow> (string \<times> string) list \<Rightarrow> exn + bool" where
  "matches_filters elements [] = Inr True"
| "matches_filters elements ((position, required_value) # rest) =
     (case py_int position of
        None \<Rightarrow> Inl (int_value_error position)
      | Some pos \<Rightarrow>
          if pos \<ge> int (length elements) then Inr False
          else (case py_index elements pos of
                  Inl e \<Rightarrow> Inl e
                | Inr v \<Rightarrow> if v \<noteq> required_value then Inr False
                           else matches_filters elements rest))"

fun find_matching_segments ::
  "seg list \<Rightarrow> string option \<Rightarrow> (string \<times> string) list \<Rightarrow> exn + seg list" where
  "find_matching_segments [] sid element_filters = Inr []"
| "find_matching_segments (sg # rest) sid element_filters =
     (if Some (s_segment_id sg) \<noteq> sid then find_matching_segments rest sid element_filters
      else if element_filters \<noteq> [] then
        (case matches_filters (s_elements sg) element_filters of
           Inl e \<Rightarrow> Inl e
         | Inr ok \<Rightarrow>
             (case find_matching_segments rest sid element_filters of
                Inl e \<Rightarrow> Inl e
              | Inr ms \<Rightarrow> Inr (if ok then sg # ms else ms)))
      else
        (case find_matching_segments rest sid element_filters of
           Inl e \<Rightarrow> Inl e
         | Inr ms \<Rightarrow> Inr (sg # ms)))"

text \<open>The minimum check of one rule; the message reads \<open>rule['description']\<close> last.\<close>

definition check_min_occurrences :: "rule \<Rightarrow> int \<Rightarrow> int \<Rightarrow> collector \<Rightarrow> outcome" where
  "check_min_occurrences r n min_occurrences c =
     (if n < min_occurrences then
        (case require_key ''rule_id'' (r_rule_id r) of
           Inl e \<Rightarrow> (Some e, c)
         | Inr rid \<Rightarrow>
         case require_key ''severity'' (r_severity r) of
           Inl e \<Rightarrow> (Some e, c)
         | Inr sev \<Rightarrow>
         case require_key ''description'' (r_description r) of
           Inl e \<Rightarrow> (Some e, c)
         | Inr descr \<Rightarrow>
             (None,
              add_error
                ((new_issue rid sev
                    (descr @ '' (found '' @ py_str_int n @ '', expected at least ''
                       @ py_str_int min_occurrences @ '')''))
                 \<lparr>segment_id := r_segment_id r,
                  expected_value := Some (''min '' @ py_str_int min_occurrences),
                  actual_value := Some (py_str_int n)\<rparr>) c))
      else (None, c))"

text \<open>The maximum check of one rule, reported on the first excess segment.\<close>

definition check_max_occurrences ::
  "rule \<Rightarrow> seg list \<Rightarrow> int option \<Rightarrow> collector \<Rightarrow> outcome" where
  "check_max_occurrences r matching_segments max_occurrences c =
     (let n = int (length matching_segments) in
      case max_occurrences of
        None \<Rightarrow> (None, c)
      | Some mx \<Rightarrow>
          if n > mx then
            (case (if n > 0 then
                     (case py_index matching_segments mx of
                        Inl e \<Rightarrow> Inl e
                      | Inr excess_segment \<Rightarrow> Inr (Some (s_line excess_segment)))
                   else Inr None) of
               Inl e \<Rightarrow> (Some e, c)
             | Inr ln \<Rightarrow>
                 add_rule_error r
                   (\<lambda>rid sev.
                      (new_issue rid sev
                         (str_opt (r_segment_id r) @ '' appears too many times (found ''
                            @ py_str_int n @ '', max '' @ py_str_int mx @ '')''))
                      \<lparr>segment_id := r_segment_id r, line_number := ln,
                       expected_value := Some (''max '' @ py_str_int mx),
                       actual_value := Some (py_str_int n)\<rparr>) c)
          else (None, c))"

definition required_segment_rule :: "seg list \<Rightarrow> rule \<Rightarrow> collector \<Rightarrow> outcome" where
  "required_segment_rule sgs r c =
     (let min_occurrences = (case r_min_occurrences r of None \<Rightarrow> 0 | Some n \<Rightarrow> n) in
      case find_matching_segments sgs (r_segment_id r) (r_element_filters r) of
        Inl e \<Rightarrow> (Some e, c)
      | Inr matching_segments \<Rightarrow>
          then_do (check_min_occurrences r (int (length matching_segments)) min_occurrences c)
            (check_max_occurrences r matching_segments (r_max_occurrences r)))"

definition RequiredSegmentValidator_validate ::
  "parsed_edi \<Rightarrow> rule list \<Rightarrow> collector \<Rightarrow> outcome" where
  "RequiredSegmentValidator_validate doc rs c = for_each (required_segment_rule (p_segments doc)) rs c"

subsection \<open>ElementValidator\<close>

text \<open>
  Two library functions are taken as given: \<open>re.match\<close> as a test (it raises on a pattern
  it cannot compile), and the \<open>repr\<close> of a list of strings.
\<close>

record pylib =
  re_match :: "string \<Rightarrow> string \<Rightarrow> exn + bool"
  repr_list :: "string list \<Rightarrow> string"

definition empty_validations :: validations where
  "empty_validations =
     \<lparr>v_required = False, v_min_length = None, v_max_length = None,
      v_allowed_values = None, v_regex = None\<rparr>"

definition check_conditional :: "seg \<Rightarrow> conditional \<Rightarrow> exn + bool" where
  "check_conditional sg cnd =
     (case c_if_element cnd of
        None \<Rightarrow> Inr False
      | Some if_element_pos \<Rightarrow>
          if if_element_pos \<noteq> 0 then
            (if if_element_pos < int (length (s_elements sg)) then
               (case py_index (s_elements sg) if_element_pos of
                  Inl e \<Rightarrow> Inl e
                | Inr v \<Rightarrow> Inr (Some (py_strip v) = c_equals cnd))
             else Inr False)
          else Inr False)"

definition element_issue :: "seg \<Rightarrow> int \<Rightarrow> string \<Rightarrow> string \<Rightarrow> string \<Rightarrow> string \<Rightarrow> issue" where
  "element_issue sg position val msg rid sev =
     (new_issue rid sev msg)
       \<lparr>segment_id := Some (s_segment_id sg), line_number := Some (s_line sg),
        element_position := Some position, actual_value := Some val\<rparr>"

definition check_min_length :: "rule \<Rightarrow> seg \<Rightarrow> int \<Rightarrow> string \<Rightarrow> validations \<Rightarrow> collector \<Rightarrow> outcome" where
  "check_min_length r sg position val vs c =
     (case v_min_length vs of
        None \<Rightarrow> (None, c)
      | Some min_length \<Rightarrow>
          if min_length \<noteq> 0 \<and> int (length val) < min_length then
            add_rule_error r
              (\<lambda>rid sev.
                 (element_issue sg position val
                    (s_segment_id sg @ fmt_02d position @ '' is too short (min ''
                       @ py_str_int min_length @ '', got '' @ py_str_int (int (length val)) @ '')'')
                    rid sev)
                 \<lparr>expected_value := Some (''min length '' @ py_str_int min_length)\<rparr>) c
          else (None, c))"

definition check_max_length :: "rule \<Rightarrow> seg \<Rightarrow> int \<Rightarrow> string \<Rightarrow> validations \<Rightarrow> collector \<Rightarrow> outcome" where
  "check_max_length r sg position val vs c =
     (case v_max_length vs of
        None \<Rightarrow> (None, c)
      | Some max_length \<Rightarrow>
          if max_length \<noteq> 0 \<and> int (length val) > max_length then
            add_rule_error r
              (\<lambda>rid sev.
                 (element_issue sg position val
                    (s_segment_id sg @ fmt_02d position @ '' is too long (max ''
                       @ py_str_int max_length @ '', got '' @ py_str_int (int (length val)) @ '')'')
                    rid sev)
                 \<lparr>expected_value := Some (''max length '' @ py_str_int max_length)\<rparr>) c
          else (None, c))"

definition check_allowed_values ::
  "pylib \<Rightarrow> rule \<Rightarrow> seg \<Rightarrow> int \<Rightarrow> string \<Rightarrow> validations \<Rightarrow> collector \<Rightarrow> outcome" where
  "check_allowed_values lib r sg position val vs c =
     (case v_allowed_values vs of
        None \<Rightarrow> (None, c)
      | Some allowed_values \<Rightarrow>
          if allowed_values \<noteq> [] \<and> val \<notin> set allowed_values then
            add_rule_error r
              (\<lambda>rid sev.
                 (element_issue sg position val
                    (s_segment_id sg @ fmt_02d position @ '' has invalid value '' @ [CHR 0x27]
                       @ val @ [CHR 0x27] @ '' (allowed: ''
                       @ py_join '', '' (take 5 allowed_values) @ ''...)'')
                    rid sev)
                 \<lparr>expected_value := Some (''one of '' @ repr_list lib (take 5 allowed_values))\<rparr>) c
          else (None, c))"

definition check_regex ::
  "pylib \<Rightarrow> rule \<Rightarrow> seg \<Rightarrow> int \<Rightarrow> string \<Rightarrow> validations \<Rightarrow> collector \<Rightarrow> outcome" where
  "check_regex lib r sg position val vs c =
     (case v_regex vs of
        None \<Rightarrow> (None, c)
      | Some regex \<Rightarrow>
          if regex \<noteq> [] then
            (case re_match lib regex val of
               Inl e \<Rightarrow> (Some e, c)
             | Inr matched \<Rightarrow>
                 if \<not> matched then
                   add_rule_error r
                     (\<lambda>rid sev.
                        (element_issue sg position val
                           (s_segment_id sg @ fmt_02d position
                              @ '' does not match required pattern (value: '' @ [CHR 0x27]
                              @ val @ [CHR 0x27] @ '')'')
                           rid sev)
                        \<lparr>expected_value := Some (''pattern: '' @ regex)\<rparr>) c
                 else (None, c))
          else (None, c))"

definition validate_element_value ::
  "pylib \<Rightarrow> rule \<Rightarrow> seg \<Rightarrow> int \<Rightarrow> string \<Rightarrow> validations \<Rightarrow> collector \<Rightarrow> outcome" where
  "validate_element_value lib r sg position val vs c =
     (if v_required vs \<and> val = [] then
        add_rule_error r
          (element_issue sg position val
             (s_segment_id sg @ fmt_02d position @ '' is required but empty'')) c
      else if val = [] \<and> \<not> v_required vs then (None, c)
      else
        then_do (then_do (then_do (check_min_length r sg position val vs c)
                            (check_max_length r sg position val vs))
                   (check_allowed_values lib r sg position val vs))
          (check_regex lib r sg position val vs))"

definition element_rule_segment :: "pylib \<Rightarrow> rule \<Rightarrow> seg \<Rightarrow> collector \<Rightarrow> outcome" where
  "element_rule_segment lib r sg c =
     (let position = (case r_element_position r of None \<Rightarrow> 0 | Some n \<Rightarrow> n);
          vs = (case r_validations r of None \<Rightarrow> empty_validations | Some v \<Rightarrow> v)
      in case (case r_conditional r of
                 None \<Rightarrow> Inr True
               | Some cnd \<Rightarrow>
                   if conditional_truthy cnd then check_conditional sg cnd else Inr True) of
           Inl e \<Rightarrow> (Some e, c)
         | Inr applies \<Rightarrow>
             if \<not> applies then (None, c)
             else if position \<ge> int (length (s_elements sg)) then
               (if v_required vs then
                  add_rule_error r
                    (\<lambda>rid sev.
                       (new_issue rid sev
                          (str_opt (r_segment_id r) @ fmt_02d position @ '' is required but missing''))
                       \<lparr>segment_id := r_segment_id r, line_number := Some (s_line sg),
                        element_position := Some position\<rparr>) c
                else (None, c))
             else
               (case py_index (s_elements sg) position of
                  Inl e \<Rightarrow> (Some e, c)
                | Inr v \<Rightarrow> validate_element_value lib r sg position (py_strip v) vs c))"

definition element_rule :: "pylib \<Rightarrow> seg list \<Rightarrow> rule \<Rightarrow> collector \<Rightarrow> outcome" where
  "element_rule lib sgs r c =
     for_each (element_rule_segment lib r)
       (filter (\<lambda>s. Some (s_segment_id s) = r_segment_id r) sgs) c"

definition ElementValidator_validate ::
  "pylib \<Rightarrow> parsed_edi \<Rightarrow> rule list \<Rightarrow> collector \<Rightarrow> outcome" where
  "ElementValidator_validate lib doc rs c = for_each (element_rule lib (p_segments doc)) rs c"

subsection \<open>ConditionalRuleValidator\<close>

definition empty_condition :: condition where
  "empty_condition = \<lparr>if_segment = None, if_element = None, if_value = None, if_value_exists = False\<rparr>"

definition empty_then :: then_clause where
  "empty_then =
     \<lparr>th_required_segments = [], th_within_loop = None, th_required_element = None, th_message = None\<rparr>"

text \<open>
  The scan for the segments of the same loop: those after the trigger line, up to the next
  segment with the loop id; the length test comes after the append.
\<close>

fun scan_loop :: "seg list \<Rightarrow> int \<Rightarrow> string \<Rightarrow> seg list \<Rightarrow> seg list" where
  "scan_loop [] trigger_line within_loop loop_segments = loop_segments"
| "scan_loop (sg # rest) trigger_line within_loop loop_segments =
     (if s_line sg > trigger_line then
        (if s_segment_id sg = within_loop then loop_segments
         else
           (let loop_segments' = loop_segments @ [sg] in
            if length loop_segments' > 10 then loop_segments'
            else scan_loop rest trigger_line within_loop loop_segments'))
      else scan_loop rest trigger_line within_loop loop_segments)"

definition loop_segments_of :: "seg \<Rightarrow> seg list \<Rightarrow> then_clause \<Rightarrow> seg list" where
  "loop_segments_of trigger_segment all_segments tc =
     (case th_within_loop tc of
        None \<Rightarrow> all_segments
      | Some within_loop \<Rightarrow>
          if within_loop \<noteq> [] then scan_loop all_segments (s_line trigger_segment) within_loop []
          else all_segments)"

definition check_required_segment ::
  "rule \<Rightarrow> seg \<Rightarrow> seg list \<Rightarrow> then_clause \<Rightarrow> string \<Rightarrow> collector \<Rightarrow> outcome" where
  "check_required_segment r trigger_segment loop_segments tc req_seg_id c =
     (let found = (\<exists>s \<in> set loop_segments. s_segment_id s = req_seg_id) in
      if \<not> found then
        add_rule_error r
          (\<lambda>rid sev.
             (new_issue rid sev
                (if truthy_str (th_message tc) then str_opt (th_message tc)
                 else req_seg_id @ '' is required when '' @ s_segment_id trigger_segment
                        @ '' is present''))
             \<lparr>segment_id := Some (s_segment_id trigger_segment),
              line_number := Some (s_line trigger_segment),
              issue_context := [(''expected_segment'', req_seg_id)]\<rparr>) c
      else (None, c))"

definition check_required_element ::
  "rule \<Rightarrow> seg \<Rightarrow> then_clause \<Rightarrow> collector \<Rightarrow> outcome" where
  "check_required_element r trigger_segment tc c =
     (case th_required_element tc of
        None \<Rightarrow> (None, c)
      | Some req \<Rightarrow>
          (let req_elem_pos = (case re_element req of None \<Rightarrow> 0 | Some n \<Rightarrow> n) in
           if re_segment req = Some (s_segment_id trigger_segment) then
             (case (if req_elem_pos \<ge> int (length (s_elements trigger_segment)) then Inr True
                    else (case py_index (s_elements trigger_segment) req_elem_pos of
                            Inl e \<Rightarrow> Inl e
                          | Inr v \<Rightarrow> Inr (py_strip v = []))) of
                Inl e \<Rightarrow> (Some e, c)
              | Inr missing \<Rightarrow>
                  if missing then
                    add_rule_error r
                      (\<lambda>rid sev.
                         (new_issue rid sev
                            (if truthy_str (th_message tc) then str_opt (th_message tc)
                             else str_opt (re_segment req) @ fmt_02d req_elem_pos @ '' is required''))
                         \<lparr>segment_id := re_segment req,
                          line_number := Some (s_line trigger_segment),
                          element_position := Some req_elem_pos\<rparr>) c
                  else (None, c))
           else (None, c)))"

definition check_then_clause ::
  "rule \<Rightarrow> seg \<Rightarrow> seg list \<Rightarrow> then_clause \<Rightarrow> collector \<Rightarrow> outcome" where
  "check_then_clause r trigger_segment all_segments tc c =
     then_do
       (if th_required_segments tc \<noteq> [] then
          for_each
            (check_required_segment r trigger_segment
               (loop_segments_of trigger_segment all_segments tc) tc)
            (th_required_segments tc) c
        else (None, c))
       (check_required_element r trigger_segment tc)"

text \<open>Whether the condition of a rule is met on one segment with the trigger id.\<close>

definition condition_met :: "condition \<Rightarrow> seg \<Rightarrow> exn + bool" where
  "condition_met cnd sg =
     (case if_element cnd of
        None \<Rightarrow> Inr False
      | Some if_element_pos \<Rightarrow>
          if if_element_pos \<noteq> 0 \<and> if_element_pos < int (length (s_elements sg)) then
            (case py_index (s_elements sg) if_element_pos of
               Inl e \<Rightarrow> Inl e
             | Inr v \<Rightarrow>
                 (let element_value = py_strip v in
                  if truthy_str (if_value cnd) \<and> Some element_value = if_value cnd then Inr True
                  else if if_value_exists cnd \<and> element_value \<noteq> [] then Inr True
                  else Inr False))
          else Inr False)"

definition conditional_rule_segment :: "rule \<Rightarrow> seg list \<Rightarrow> seg \<Rightarrow> collector \<Rightarrow> outcome" where
  "conditional_rule_segment r sgs sg c =
     (let cnd = (case r_condition r of None \<Rightarrow> empty_condition | Some x \<Rightarrow> x);
          tc = (case r_then r of None \<Rightarrow> empty_then | Some x \<Rightarrow> x)
      in if Some (s_segment_id sg) \<noteq> if_segment cnd then (None, c)
         else (case condition_met cnd sg of
                 Inl e \<Rightarrow> (Some e, c)
               | Inr met \<Rightarrow> if met then check_then_clause r sg sgs tc c else (None, c)))"

definition conditional_rule :: "seg list \<Rightarrow> rule \<Rightarrow> collector \<Rightarrow> outcome" where
  "conditional_rule sgs r c = for_each (conditional_rule_segment r sgs) sgs c"

definition ConditionalRuleValidator_validate ::
  "parsed_edi \<Rightarrow> rule list \<Rightarrow> collector \<Rightarrow> outcome" where
  "ConditionalRuleValidator_validate doc rs c = for_each (conditional_rule (p_segments doc)) rs c"

subsection \<open>CrossSegmentValidator\<close>

definition empty_logic :: validation_logic where
  "empty_logic =
     \<lparr>l_type = None, l_source_segment = None, l_target_segment = None, l_target_element = None,
      l_message = None, l_match_pairs = [], l_segment_id = None, l_element_position = None,
      l_required_value = None\<rparr>"

definition count_match_segment ::
  "rule \<Rightarrow> validation_logic \<Rightarrow> int \<Rightarrow> seg \<Rightarrow> collector \<Rightarrow> outcome" where
  "count_match_segment r logic source_count target_seg c =
     (let target_element = (case l_target_element logic of None \<Rightarrow> 0 | Some n \<Rightarrow> n) in
      if target_element < int (length (s_elements target_seg)) then
        (case py_index (s_elements target_seg) target_element of
           Inl e \<Rightarrow> (Some e, c)
         | Inr v \<Rightarrow>
             (let declared_count = py_strip v in
              case py_int declared_count of
                Some declared_count_int \<Rightarrow>
                  if declared_count_int \<noteq> source_count then
                    add_rule_error r
                      (\<lambda>rid sev.
                         (new_issue rid sev
                            (if truthy_str (l_message logic) then str_opt (l_message logic)
                             else str_opt (l_target_segment logic) @ fmt_02d target_element
                                    @ '' count mismatch''))
                         \<lparr>segment_id := l_target_segment logic,
                          line_number := Some (s_line target_seg),
                          element_position := Some target_element,
                          expected_value := Some (py_str_int source_count),
                          actual_value := Some declared_count\<rparr>) c
                  else (None, c)
              | None \<Rightarrow>
                  add_rule_error r
                    (\<lambda>rid sev.
                       (new_issue rid sev
                          (str_opt (l_target_segment logic) @ fmt_02d target_element
                             @ '' contains invalid count value''))
                       \<lparr>segment_id := l_target_segment logic,
                        line_number := Some (s_line target_seg),
                        element_position := Some target_element,
                        actual_value := Some declared_count\<rparr>) c))
      else (None, c))"

definition validate_count_match :: "rule \<Rightarrow> seg list \<Rightarrow> validation_logic \<Rightarrow> collector \<Rightarrow> outcome" where
  "validate_count_match r sgs logic c =
     (let source_count =
            int (length (filter (\<lambda>s. Some (s_segment_id s) = l_source_segment logic) sgs));
          target_segments = filter (\<lambda>s. Some (s_segment_id s) = l_target_segment logic) sgs
      in for_each (count_match_segment r logic source_count) target_segments c)"

definition element_match_pair ::
  "rule \<Rightarrow> match_pair \<Rightarrow> seg \<times> seg \<Rightarrow> collector \<Rightarrow> outcome" where
  "element_match_pair r pair sp c =
     (let elem1_pos = (case element_1 pair of None \<Rightarrow> 0 | Some n \<Rightarrow> n);
          elem2_pos = (case element_2 pair of None \<Rightarrow> 0 | Some n \<Rightarrow> n);
          elem1 = s_elements (fst sp);
          elem2 = s_elements (snd sp)
      in if elem1_pos < int (length elem1) \<and> elem2_pos < int (length elem2) then
           (case py_index elem1 elem1_pos of
              Inl e \<Rightarrow> (Some e, c)
            | Inr v1 \<Rightarrow>
            case py_index elem2 elem2_pos of
              Inl e \<Rightarrow> (Some e, c)
            | Inr v2 \<Rightarrow>
                (let val1 = py_strip v1; val2 = py_strip v2 in
                 if val1 \<noteq> val2 then
                   add_rule_error r
                     (\<lambda>rid sev.
                        (new_issue rid sev
                           (str_opt (segment_1 pair) @ fmt_02d elem1_pos @ '' and ''
                              @ str_opt (segment_2 pair) @ fmt_02d elem2_pos @ '' must match''))
                        \<lparr>segment_id := segment_2 pair,
                         line_number := Some (s_line (snd sp)),
                         element_position := Some elem2_pos,
                         expected_value := Some val1,
                         actual_value := Some val2\<rparr>) c
                 else (None, c)))
         else (None, c))"

definition element_match_pairs :: "rule \<Rightarrow> seg list \<Rightarrow> match_pair \<Rightarrow> collector \<Rightarrow> outcome" where
  "element_match_pairs r sgs pair c =
     (let seg1_list = filter (\<lambda>s. Some (s_segment_id s) = segment_1 pair) sgs;
          seg2_list = filter (\<lambda>s. Some (s_segment_id s) = segment_2 pair) sgs
      in for_each (element_match_pair r pair) (zip seg1_list seg2_list) c)"

definition validate_element_match ::
  "rule \<Rightarrow> seg list \<Rightarrow> validation_logic \<Rightarrow> collector \<Rightarrow> outcome" where
  "validate_element_match r sgs logic c = for_each (element_match_pairs r sgs) (l_match_pairs logic) c"

text \<open>The search loop of \<open>_validate_element_value_exists\<close>, ended by the first hit.\<close>

fun value_exists :: "seg list \<Rightarrow> string option \<Rightarrow> int \<Rightarrow> string option \<Rightarrow> exn + bool" where
  "value_exists [] sid element_pos required_value = Inr False"
| "value_exists (sg # rest) sid element_pos required_value =
     (if Some (s_segment_id sg) = sid \<and> element_pos < int (length (s_elements sg)) then
        (case py_index (s_elements sg) element_pos of
           Inl e \<Rightarrow> Inl e
         | Inr v \<Rightarrow> if Some (py_strip v) = required_value then Inr True
                    else value_exists rest sid element_pos required_value)
      else value_exists rest sid element_pos required_value)"

definition validate_element_value_exists ::
  "rule \<Rightarrow> seg list \<Rightarrow> validation_logic \<Rightarrow> collector \<Rightarrow> outcome" where
  "validate_element_value_exists r sgs logic c =
     (let element_pos = (case l_element_position logic of None \<Rightarrow> 0 | Some n \<Rightarrow> n) in
      case value_exists sgs (l_segment_id logic) element_pos (l_required_value logic) of
        Inl e \<Rightarrow> (Some e, c)
      | Inr found \<Rightarrow>
          if \<not> found then
            add_rule_error r
              (\<lambda>rid sev.
                 (new_issue rid sev
                    (if truthy_str (l_message logic) then str_opt (l_message logic)
                     else ''No '' @ str_opt (l_segment_id logic) @ '' segment with ''
                            @ str_opt (l_segment_id logic) @ fmt_02d element_pos @ ''=''
                            @ str_opt (l_required_value logic) @ '' found''))
                 \<lparr>segment_id := l_segment_id logic,
                  expected_value := l_required_value logic\<rparr>) c
          else (None, c))"

definition cross_segment_rule :: "seg list \<Rightarrow> rule \<Rightarrow> collector \<Rightarrow> outcome" where
  "cross_segment_rule sgs r c =
     (let logic = (case r_validation_logic r of None \<Rightarrow> empty_logic | Some l \<Rightarrow> l) in
      if l_type logic = Some ''count_match'' then validate_count_match r sgs logic c
      else if l_type logic = Some ''element_match'' then validate_element_match r sgs logic c
      else if l_type logic = Some ''element_value_exists'' then
        validate_element_value_exists r sgs logic c
      else (None, c))"

definition CrossSegmentValidator_validate ::
  "parsed_edi \<Rightarrow> rule list \<Rightarrow> collector \<Rightarrow> outcome" where
  "CrossSegmentValidator_validate doc rs c = for_each (cross_segment_rule (p_segments doc)) rs c"

section \<open>Validation orchestrator (validation_engine.py)\<close>

text \<open>A \<open>ValidationResult\<close>; the wall-clock duration and the timestamp are left out.\<close>

record validation_result =
  vr_error_collector :: collector
  vr_parsed_edi :: parsed_edi
  vr_rules :: ruleset

definition is_compliant :: "validation_result \<Rightarrow> bool" where
  "is_compliant res \<longleftrightarrow> \<not> has_errors (vr_error_collector res)"

definition error_count :: "validation_result \<Rightarrow> nat" where
  "error_count res = length (errors (vr_error_collector res))"

definition warning_count :: "validation_result \<Rightarrow> nat" where
  "warning_count res = length (warnings (vr_error_collector res))"

definition total_issues :: "validation_result \<Rightarrow> nat" where
  "total_issues res = length (get_all_errors (vr_error_collector res))"

text \<open>The issue the orchestrator records for a category whose evaluator raised.\<close>

definition system_error :: "string \<Rightarrow> exn \<Rightarrow> issue" where
  "system_error category_name e =
     new_issue ''SYSTEM_ERROR'' ''ERROR''
       (''System error during '' @ category_name @ '' validation: '' @ str_exn e)"

definition validate_category ::
  "(parsed_edi \<Rightarrow> rule list \<Rightarrow> collector \<Rightarrow> outcome) \<Rightarrow> parsed_edi \<Rightarrow> rule list \<Rightarrow> string
     \<Rightarrow> collector \<Rightarrow> collector" where
  "validate_category validator doc rs category_name c =
     (if rs = [] then c
      else (case validator doc rs c of
              (None, c') \<Rightarrow> c'
            | (Some e, c') \<Rightarrow> add_error (system_error category_name e) c'))"

definition validate :: "pylib \<Rightarrow> parsed_edi \<Rightarrow> ruleset \<Rightarrow> validation_result" where
  "validate lib doc rules =
     (let c0 = ErrorCollector;
          c1 = validate_category RequiredSegmentValidator_validate doc
                 (rs_required_segments rules) ''Required Segments'' c0;
          c2 = validate_category (ElementValidator_validate lib) doc
                 (rs_element_rules rules) ''Element Rules'' c1;
          c3 = validate_category ConditionalRuleValidator_validate doc
                 (rs_conditional_rules rules) ''Conditional Rules'' c2;
          c4 = validate_category CrossSegmentValidator_validate doc
                 (rs_cross_segment_rules rules) ''Cross-Segment Rules'' c3
      in \<lparr>vr_error_collector = c4, vr_parsed_edi = doc, vr_rules = rules\<rparr>)"

section \<open>Sample values\<close>

text \<open>
  A small purchase order, a rule with no key set, and a ruleset with no rule: the inputs
  of the examples below. \<open>plain_lib\<close> stands in for the two library functions where an
  example needs a value for them and does not depend on it.
\<close>

definition sample_segments :: "string list" where
  "sample_segments =
     [''ST*850*0001'', ''BEG*00*NE*PO1**20231215'', ''PO1*1*5'', ''PO1*2*7'', ''CTT*3'',
      ''SE*1*0001'']"

definition sample_doc :: parsed_edi where
  "sample_doc = build_parsed_structure sample_segments"

definition blank_rule :: rule where
  "blank_rule =
     \<lparr>r_rule_id = None, r_severity = None, r_description = None, r_segment_id = None,
      r_min_occurrences = None, r_max_occurrences = None, r_element_filters = [],
      r_element_position = None, r_validations = None, r_conditional = None,
      r_condition = None, r_then = None, r_validation_logic = None,
      r_applies_to_doc_types = None\<rparr>"

definition blank_ruleset :: ruleset where
  "blank_ruleset =
     \<lparr>rs_ruleset_info =
        \<lparr>ri_name = [], ri_doc_type = [], ri_retailer = [], ri_rulesets_applied = []\<rparr>,
      rs_required_segments = [], rs_element_rules = [], rs_conditional_rules = [],
      rs_cross_segment_rules = [], rs_segment_sequences = None, rs_business_rules = None\<rparr>"

definition plain_lib :: pylib where
  "plain_lib = \<lparr>re_match = (\<lambda>pattern s. Inr True), repr_list = (\<lambda>xs. py_join '', '' xs)\<rparr>"

section \<open>Specification-side notions\<close>

text \<open>
  The \<open>i\<close>-th separator-delimited field of a string, read off the input directly: skip
  \<open>i\<close> separators, then take the characters up to the next separator.
\<close>

fun nth_field :: "char \<Rightarrow> nat \<Rightarrow> string \<Rightarrow> string" where
  "nth_field c 0 s = takeWhile (\<lambda>x. x \<noteq> c) s"
| "nth_field c (Suc i) s = nth_field c i (tl (dropWhile (\<lambda>x. x \<noteq> c) s))"


text \<open>The counted element position of a count-match rule (0 when the key is absent).\<close>

definition target_element_of :: "validation_logic \<Rightarrow> int" where
  "target_element_of logic = (case l_target_element logic of None \<Rightarrow> 0 | Some n \<Rightarrow> n)"

text \<open>The mismatch issue and the invalid-value issue of a count-match rule.\<close>

definition count_mismatch_issue ::
  "string \<Rightarrow> string \<Rightarrow> validation_logic \<Rightarrow> seg \<Rightarrow> string \<Rightarrow> string \<Rightarrow> issue" where
  "count_mismatch_issue rid sev logic tseg expected actual =
     \<lparr>rule_id = rid, severity = sev,
      message = (if truthy_str (l_message logic) then str_opt (l_message logic)
                 else str_opt (l_target_segment logic) @ fmt_02d (target_element_of logic)
                        @ '' count mismatch''),
      segment_id = l_target_segment logic, line_number = Some (s_line tseg),
      element_position = Some (target_element_of logic),
      expected_value = Some expected, actual_value = Some actual, issue_context = []\<rparr>"

definition invalid_count_issue ::
  "string \<Rightarrow> string \<Rightarrow> validation_logic \<Rightarrow> seg \<Rightarrow> string \<Rightarrow> issue" where
  "invalid_count_issue rid sev logic tseg actual =
     \<lparr>rule_id = rid, severity = sev,
      message = str_opt (l_target_segment logic) @ fmt_02d (target_element_of logic)
                  @ '' contains invalid count value'',
      segment_id = l_target_segment logic, line_number = Some (s_line tseg),
      element_position = Some (target_element_of logic),
      expected_value = None, actual_value = Some actual, issue_context = []\<rparr>"

text \<open>Sample rules over the sample document.\<close>

definition n1_required_rule :: rule where
  "n1_required_rule =
     blank_rule\<lparr>r_rule_id := Some ''REQ_N1'', r_severity := Some ''ERROR'',
                r_description := Some ''N1 segment is required'', r_segment_id := Some ''N1'',
                r_min_occurrences := Some 1\<rparr>"

definition ctt_logic :: validation_logic where
  "ctt_logic =
     empty_logic\<lparr>l_type := Some ''count_match'', l_source_segment := Some ''PO1'',
                 l_target_segment := Some ''CTT'', l_target_element := Some 1\<rparr>"

definition ctt_count_rule :: rule where
  "ctt_count_rule =
     blank_rule\<lparr>r_rule_id := Some ''CTT_COUNT'', r_severity := Some ''ERROR'',
                r_validation_logic := Some ctt_logic\<rparr>"

definition ctt_segment :: seg where
  "ctt_segment =
     \<lparr>s_line = 5, s_segment_id = ''CTT'', s_elements = [''CTT'', ''3''], s_element_count = 2,
      s_raw = ''CTT*3''\<rparr>"

definition bad_ctt_segment :: seg where
  "bad_ctt_segment =
     \<lparr>s_line = 5, s_segment_id = ''CTT'', s_elements = [''CTT'', ''three''],
      s_element_count = 2, s_raw = ''CTT*three''\<rparr>"



text \<open>
  The four categories of a validation run in the order \<open>validate\<close> visits them, each with
  its evaluator, its rules and its name, and the run of a list of categories.
\<close>

definition categories ::
  "pylib \<Rightarrow> parsed_edi \<Rightarrow> ruleset
     \<Rightarrow> ((parsed_edi \<Rightarrow> rule list \<Rightarrow> collector \<Rightarrow> outcome) \<times> rule list \<times> string) list" where
  "categories lib doc rules =
     [(RequiredSegmentValidator_validate, rs_required_segments rules, ''Required Segments''),
      (ElementValidator_validate lib, rs_element_rules rules, ''Element Rules''),
      (ConditionalRuleValidator_validate, rs_conditional_rules rules, ''Conditional Rules''),
      (CrossSegmentValidator_validate, rs_cross_segment_rules rules, ''Cross-Segment Rules'')]"

definition run_categories ::
  "parsed_edi \<Rightarrow> ((parsed_edi \<Rightarrow> rule list \<Rightarrow> collector \<Rightarrow> outcome) \<times> rule list \<times> string) list
     \<Rightarrow> collector \<Rightarrow> collector" where
  "run_categories doc cats c =
     fold (\<lambda>cat acc. validate_category (fst cat) doc (fst (snd cat)) (snd (snd cat)) acc) cats c"

text \<open>A required-segment rule that lacks its description, and a ruleset holding it.\<close>

definition nodesc_rule :: rule where
  "nodesc_rule =
     blank_rule\<lparr>r_rule_id := Some ''REQ_N1'', r_severity := Some ''ERROR'',
                r_segment_id := Some ''N1'', r_min_occurrences := Some 1\<rparr>"

definition faulty_ruleset :: ruleset where
  "faulty_ruleset =
     blank_ruleset\<lparr>rs_required_segments := [nodesc_rule],
                   rs_cross_segment_rules := [ctt_count_rule]\<rparr>"

text \<open>
  A document whose first N1 loop holds ten REF segments and then the N3 segment, and the
  conditional rule asking for N3 within the N1 loop of a ship-to N1.
\<close>

definition long_loop_segments :: "string list" where
  "long_loop_segments =
     [''N1*ST*ACME'', ''REF*A1'', ''REF*A2'', ''REF*A3'', ''REF*A4'', ''REF*A5'', ''REF*A6'',
      ''REF*A7'', ''REF*A8'', ''REF*A9'', ''REF*AA'', ''N3*1 MAIN ST'', ''N1*BT*OTHER'']"

definition long_loop_doc :: parsed_edi where
  "long_loop_doc = build_parsed_structure long_loop_segments"

definition n3_in_loop_rule :: rule where
  "n3_in_loop_rule =
     blank_rule\<lparr>r_rule_id := Some ''N1_ST_ADDRESS'', r_severity := Some ''WARNING'',
                r_condition :=
                  Some \<lparr>if_segment = Some ''N1'', if_element = Some 1, if_value = Some ''ST'',
                        if_value_exists = False\<rparr>,
                r_then :=
                  Some \<lparr>th_required_segments = [''N3''], th_within_loop = Some ''N1'',
                        th_required_element = None, th_message = None\<rparr>\<rparr>"

text \<open>
  A merged ruleset handed back to the loader as a tier: its four categories under their
  keys.
\<close>

definition tier_of_ruleset :: "ruleset \<Rightarrow> tier" where
  "tier_of_ruleset m =
     empty_tier\<lparr>t_other_keys := True,
                t_required_segments := Some (rs_required_segments m),
                t_element_rules := Some (rs_element_rules m),
                t_conditional_rules := Some (rs_conditional_rules m),
                t_cross_segment_rules := Some (rs_cross_segment_rules m)\<rparr>"

text \<open>A tier with the list of one category replaced.\<close>

fun tier_put :: "tier \<Rightarrow> category \<Rightarrow> rule list \<Rightarrow> tier" where
  "tier_put t Required_segments rs = t\<lparr>t_required_segments := Some rs\<rparr>"
| "tier_put t Element_rules rs = t\<lparr>t_element_rules := Some rs\<rparr>"
| "tier_put t Conditional_rules rs = t\<lparr>t_conditional_rules := Some rs\<rparr>"
| "tier_put t Cross_segment_rules rs = t\<lparr>t_cross_segment_rules := Some rs\<rparr>"

text \<open>The mapping from rule id to rule that a list of rules stands for (the last wins).\<close>

definition rules_by_id :: "rule list \<Rightarrow> string \<Rightarrow> rule option" where
  "rules_by_id rs = map_of (fold insert_rule rs [])"

text \<open>Sample tiers: a core rule, a document rule, and a retailer rule for 856 only.\<close>

definition core_isa_rule :: rule where
  "core_isa_rule =
     blank_rule\<lparr>r_rule_id := Some ''REQ_ISA'', r_severity := Some ''ERROR'',
                r_description := Some ''ISA segment is required'', r_segment_id := Some ''ISA'',
                r_min_occurrences := Some 1\<rparr>"

definition doc_n1_rule :: rule where
  "doc_n1_rule = n1_required_rule\<lparr>r_severity := Some ''WARNING''\<rparr>"

definition retailer_n1_rule :: rule where
  "retailer_n1_rule = n1_required_rule\<lparr>r_applies_to_doc_types := Some [''856'']\<rparr>"

definition sample_core :: tier where
  "sample_core = empty_tier\<lparr>t_other_keys := True, t_required_segments := Some [core_isa_rule]\<rparr>"

definition sample_doc_tier :: tier where
  "sample_doc_tier =
     empty_tier\<lparr>t_other_keys := True, t_required_segments := Some [doc_n1_rule, core_isa_rule]\<rparr>"

definition sample_retailer :: tier where
  "sample_retailer =
     empty_tier\<lparr>t_other_keys := True, t_required_segments := Some [retailer_n1_rule]\<rparr>"

text \<open>
  The shape of the dictionary \<open>category_rules\<close>: no key twice, and every rule stored
  under its own non-empty id.
\<close>

definition well_keyed :: "(string \<times> rule) list \<Rightarrow> bool" where
  "well_keyed m \<longleftrightarrow> distinct (map fst m) \<and> (\<forall>(k, r) \<in> set m. r_rule_id r = Some k \<and> k \<noteq> [])"








section \<open>Properties of the splitter\<close>

lemma py_split_nonempty: "py_split c s \<noteq> []"
  by (induction s) (auto split: list.splits)

lemma py_split_length: "length (py_split c s) = Suc (count_list s c)"
  by (induction s) (auto split: list.splits simp: py_split_nonempty)

lemma py_split_no_sep: "e \<in> set (py_split c s) \<Longrightarrow> c \<notin> set e"
  by (induction s arbitrary: e) (auto split: list.splits if_splits)

lemma py_join_cons: "ys \<noteq> [] \<Longrightarrow> py_join sep (x # ys) = x @ sep @ py_join sep ys"
  by (cases ys) auto

lemma py_join_split: "py_join [c] (py_split c s) = s"
proof (induction s)
  case Nil
  show ?case by simp
next
  case (Cons x xs)
  show ?case
  proof (cases "x = c")
    case True
    then show ?thesis
      using Cons py_split_nonempty[of c xs] by (simp add: py_join_cons)
  next
    case False
    obtain w ws where ws: "py_split c xs = w # ws"
      using py_split_nonempty[of c xs] by (cases "py_split c xs") auto
    show ?thesis using False Cons ws by (cases ws) auto
  qed
qed

lemma py_split_nth: "i < length (py_split c s) \<Longrightarrow> py_split c s ! i = nth_field c i s"
proof (induction s arbitrary: i)
  case Nil
  then show ?case by (cases i) auto
next
  case (Cons x xs)
  show ?case
  proof (cases "x = c")
    case True
    then show ?thesis using Cons by (cases i) auto
  next
    case False
    obtain w ws where ws: "py_split c xs = w # ws"
      using py_split_nonempty[of c xs] by (cases "py_split c xs") auto
    have h0: "w = nth_field c 0 xs"
      using Cons.IH[of 0] ws by simp
    show ?thesis
    proof (cases i)
      case 0
      then show ?thesis using False ws h0 by simp
    next
      case (Suc j)
      have "j < length ws"
        using Cons.prems Suc False ws by simp
      hence "ws ! j = nth_field c (Suc j) xs"
        using Cons.IH[of "Suc j"] ws by simp
      then show ?thesis using False ws Suc by simp
    qed
  qed
qed

text \<open>
  C5. Element splitting keeps element count and position, empty strings included. The
  segment \<open>BEG*00*NE*PO1**20231215\<close> splits into exactly six elements, the one at index 4
  empty. In general, for every segment string and separator, the result has one element
  more than the string has separators, its \<open>i\<close>-th element is the \<open>i\<close>-th
  separator-delimited field of the input, and joining the elements with the separator
  gives the input back.
\<close>

theorem split_elements_positions:
  "split_elements ''BEG*00*NE*PO1**20231215'' ELEMENT_SEPARATOR
     = [''BEG'', ''00'', ''NE'', ''PO1'', [], ''20231215'']
   \<and> length (split_elements ''BEG*00*NE*PO1**20231215'' ELEMENT_SEPARATOR) = 6
   \<and> split_elements ''BEG*00*NE*PO1**20231215'' ELEMENT_SEPARATOR ! 4 = []
   \<and> length (split_elements s sep) = Suc (count_list s sep)
   \<and> (\<forall>i < length (split_elements s sep). split_elements s sep ! i = nth_field sep i s)
   \<and> py_join [sep] (split_elements s sep) = s"
proof -
  have ex: "split_elements ''BEG*00*NE*PO1**20231215'' ELEMENT_SEPARATOR
              = [''BEG'', ''00'', ''NE'', ''PO1'', [], ''20231215'']"
    by (simp add: split_elements_def ELEMENT_SEPARATOR_def)
  have gen: "\<forall>i < length (split_elements s sep). split_elements s sep ! i = nth_field sep i s"
    by (simp add: split_elements_def py_split_nth)
  show ?thesis
    unfolding ex using gen
    by (simp add: split_elements_def py_split_length py_join_split)
qed

theorem split_elements_positions_witness:
  "(2::nat) < length (split_elements ''N1*ST**92'' (CHR ''*''))
   \<and> split_elements ''N1*ST**92'' (CHR ''*'') ! 2 = nth_field (CHR ''*'') 2 ''N1*ST**92''
   \<and> split_elements ''N1*ST**92'' (CHR ''*'') ! 2 = []"
proof -
  have len: "(2::nat) < length (split_elements ''N1*ST**92'' (CHR ''*''))"
    by (simp add: split_elements_def)
  have "split_elements ''N1*ST**92'' (CHR ''*'') ! 2 = nth_field (CHR ''*'') 2 ''N1*ST**92''"
    using split_elements_positions [of "''N1*ST**92''" "CHR ''*''"] len by blast
  moreover have "split_elements ''N1*ST**92'' (CHR ''*'') ! 2 = []"
    by (simp add: split_elements_def)
  ultimately show ?thesis using len by simp
qed

section \<open>Properties of parsing\<close>

lemma py_strip_nil_iff: "py_strip s = [] \<longleftrightarrow> (\<forall>c \<in> set s. is_space c)"
proof
  assume "py_strip s = []"
  hence a: "\<forall>x \<in> set (dropWhile is_space s). is_space x"
    by (simp add: py_strip_def)
  have "dropWhile is_space s = []"
  proof (cases "dropWhile is_space s")
    case Nil
    then show ?thesis .
  next
    case (Cons y ys)
    hence "\<not> is_space y" using hd_dropWhile[of is_space s] by simp
    with a Cons show ?thesis by simp
  qed
  thus "\<forall>c \<in> set s. is_space c" by simp
next
  assume "\<forall>c \<in> set s. is_space c"
  hence "dropWhile is_space s = []" using dropWhile_eq_Nil_conv by blast
  thus "py_strip s = []" unfolding py_strip_def by (simp only: rev.simps dropWhile.simps)
qed

lemma set_py_strip_sub: "set (py_strip s) \<subseteq> set s"
proof -
  have "set (py_strip s) = set (dropWhile is_space (rev (dropWhile is_space s)))"
    by (simp add: py_strip_def)
  also have "\<dots> \<subseteq> set (rev (dropWhile is_space s))"
    using set_dropWhileD by fastforce
  also have "\<dots> \<subseteq> set s" using set_dropWhileD by fastforce
  finally show ?thesis .
qed

lemma dropWhile_keeps: "x \<in> set xs \<Longrightarrow> \<not> P x \<Longrightarrow> x \<in> set (dropWhile P xs)"
  by (induction xs) auto

lemma py_strip_keeps: "x \<in> set s \<Longrightarrow> \<not> is_space x \<Longrightarrow> x \<in> set (py_strip s)"
  by (simp add: py_strip_def dropWhile_keeps)

text \<open>
  Whether a string holds a character with a property that no whitespace has is the same
  before and after each step of the normalisation.
\<close>

lemma ex_py_strip:
  "(\<And>x. Q x \<Longrightarrow> \<not> is_space x) \<Longrightarrow> (\<exists>x \<in> set (py_strip s). Q x) \<longleftrightarrow> (\<exists>x \<in> set s. Q x)"
  using set_py_strip_sub py_strip_keeps by blast

lemma is_space_CR: "is_space (CHR 0x0D)"
  by (simp add: is_space_def)

lemma is_space_LF: "is_space (CHR 0x0A)"
  by (simp add: is_space_def)

lemma ex_replace_crlf:
  "\<not> Q (CHR 0x0D) \<Longrightarrow> \<not> Q (CHR 0x0A) \<Longrightarrow>
   (\<exists>x \<in> set (replace_crlf s). Q x) \<longleftrightarrow> (\<exists>x \<in> set s. Q x)"
  by (induction s rule: replace_crlf.induct) auto

lemma ex_replace_cr:
  "\<not> Q (CHR 0x0D) \<Longrightarrow> \<not> Q (CHR 0x0A) \<Longrightarrow>
   (\<exists>x \<in> set (replace_cr s). Q x) \<longleftrightarrow> (\<exists>x \<in> set s. Q x)"
  unfolding replace_cr_def by (induction s) auto

lemma ex_py_split:
  "(\<exists>w \<in> set (py_split c s). \<exists>x \<in> set w. Q x) \<longleftrightarrow> (\<exists>x \<in> set s. Q x \<and> x \<noteq> c)"
  by (induction s) (auto split: list.splits)

lemma ex_py_join:
  "(\<And>x. x \<in> set sep \<Longrightarrow> \<not> Q x) \<Longrightarrow>
   (\<exists>x \<in> set (py_join sep ws). Q x) \<longleftrightarrow> (\<exists>w \<in> set ws. \<exists>x \<in> set w. Q x)"
  by (induction sep ws rule: py_join.induct) auto

lemma ex_filter_strip:
  assumes "\<And>x. Q x \<Longrightarrow> \<not> is_space x"
  shows "(\<exists>w \<in> set (map py_strip (filter (\<lambda>l. py_strip l \<noteq> []) ws)). \<exists>x \<in> set w. Q x)
         \<longleftrightarrow> (\<exists>w \<in> set ws. \<exists>x \<in> set w. Q x)"
proof -
  have a: "\<And>w. (\<exists>x \<in> set (py_strip w). Q x) \<longleftrightarrow> (\<exists>x \<in> set w. Q x)"
    using ex_py_strip[OF assms] by blast
  have b: "\<And>w. (\<exists>x \<in> set w. Q x) \<Longrightarrow> py_strip w \<noteq> []"
    using assms py_strip_nil_iff by blast
  show ?thesis using a b by auto
qed

lemma ex_normalize:
  assumes "\<And>x. Q x \<Longrightarrow> \<not> is_space x"
  shows "(\<exists>x \<in> set (normalize_edi_text s). Q x) \<longleftrightarrow> (\<exists>x \<in> set s. Q x)"
proof -
  have cr: "\<not> Q (CHR 0x0D)" and lf: "\<not> Q (CHR 0x0A)"
    using assms is_space_CR is_space_LF by blast+
  let ?n = "replace_cr (replace_crlf (py_strip s))"
  have n: "(\<exists>x \<in> set ?n. Q x) \<longleftrightarrow> (\<exists>x \<in> set s. Q x)"
    using ex_replace_cr[OF cr lf] ex_replace_crlf[OF cr lf] ex_py_strip[OF assms] by simp
  have sp: "(\<exists>w \<in> set (py_split (CHR 0x0A) ?n). \<exists>x \<in> set w. Q x) \<longleftrightarrow> (\<exists>x \<in> set ?n. Q x)"
    using ex_py_split[of "CHR 0x0A" ?n Q] lf by blast
  have "(\<exists>x \<in> set (normalize_edi_text s). Q x)
        \<longleftrightarrow> (\<exists>w \<in> set (map py_strip (filter (\<lambda>l. py_strip l \<noteq> []) (py_split (CHR 0x0A) ?n))).
               \<exists>x \<in> set w. Q x)"
    unfolding normalize_edi_text_def Let_def
    by (rule ex_py_join) (simp add: lf)
  thus ?thesis using ex_filter_strip[OF assms] sp n by simp
qed

lemma split_segments_nil_iff:
  "split_segments s t = [] \<longleftrightarrow> (\<forall>x \<in> set s. is_space x \<or> x = t)"
proof -
  let ?n = "normalize_edi_text s"
  have "split_segments s t = [] \<longleftrightarrow> (\<forall>w \<in> set (py_split t ?n). py_strip w = [])"
    by (simp add: split_segments_def Let_def filter_empty_conv)
  also have "\<dots> \<longleftrightarrow> \<not> (\<exists>w \<in> set (py_split t ?n). \<exists>x \<in> set w. \<not> is_space x)"
    by (simp add: py_strip_nil_iff)
  also have "\<dots> \<longleftrightarrow> \<not> (\<exists>x \<in> set ?n. \<not> is_space x \<and> x \<noteq> t)"
    using ex_py_split[of t ?n "\<lambda>x. \<not> is_space x"] by simp
  also have "\<dots> \<longleftrightarrow> \<not> (\<exists>x \<in> set s. \<not> is_space x \<and> x \<noteq> t)"
    using ex_normalize[of "\<lambda>x. \<not> is_space x \<and> x \<noteq> t" s] by simp
  finally show ?thesis by blast
qed

lemma normalize_space:
  "(\<forall>x \<in> set (normalize_edi_text s). is_space x \<or> x = t) \<longleftrightarrow> (\<forall>x \<in> set s. is_space x \<or> x = t)"
  using ex_normalize[of "\<lambda>x. \<not> is_space x \<and> x \<noteq> t" s] by blast

lemma py_split_absent: "c \<notin> set s \<Longrightarrow> py_split c s = [s]"
  by (induction s) auto

lemma terminator_not_space: "\<not> is_space SEGMENT_TERMINATOR"
  by (simp add: is_space_def SEGMENT_TERMINATOR_def)

lemma normalize_keeps_absent:
  "\<not> is_space c \<Longrightarrow> c \<notin> set s \<Longrightarrow> c \<notin> set (normalize_edi_text s)"
  using ex_normalize[of "\<lambda>x. x = c" s] by auto

lemma split_segments_single:
  assumes "\<not> is_space c" and "c \<notin> set s" and "\<exists>x \<in> set s. \<not> is_space x"
  shows "split_segments s c = [py_strip (normalize_edi_text s)]"
proof -
  have a: "py_split c (normalize_edi_text s) = [normalize_edi_text s]"
    using assms(1,2) by (simp add: py_split_absent normalize_keeps_absent)
  have "\<exists>x \<in> set (normalize_edi_text s). \<not> is_space x"
    using assms(3) ex_normalize[of "\<lambda>x. \<not> is_space x" s] by simp
  hence "py_strip (normalize_edi_text s) \<noteq> []"
    by (simp add: py_strip_nil_iff)
  thus ?thesis using a by (simp add: split_segments_def Let_def)
qed

lemma parse_all_segments_single:
  "\<exists>sg. parse_all_segments [x] = [sg] \<and> s_line sg = 1 \<and> s_raw sg = x"
proof -
  obtain e es where "split_elements x ELEMENT_SEPARATOR = e # es"
    using py_split_nonempty[of ELEMENT_SEPARATOR x]
    by (cases "split_elements x ELEMENT_SEPARATOR") (auto simp: split_elements_def)
  thus ?thesis by (simp add: parse_all_segments_def Let_def)
qed

lemma parse_text_single:
  assumes "SEGMENT_TERMINATOR \<notin> set t" and "\<not> (\<forall>c \<in> set t. is_space c)"
  shows "\<not> isl (parse_text t)
         \<and> length (p_segments (projr (parse_text t))) = 1
         \<and> map s_line (p_segments (projr (parse_text t))) = [1]
         \<and> map s_raw (p_segments (projr (parse_text t)))
             = [py_strip (normalize_edi_text (normalize_edi_text t))]"
proof -
  let ?n = "normalize_edi_text t"
  have ne: "py_strip t \<noteq> []" "t \<noteq> []"
    using assms(2) by (auto simp: py_strip_nil_iff)
  have n1: "SEGMENT_TERMINATOR \<notin> set ?n"
    using assms(1) terminator_not_space by (simp add: normalize_keeps_absent)
  have n2: "\<exists>x \<in> set ?n. \<not> is_space x"
    using assms(2) ex_normalize[of "\<lambda>x. \<not> is_space x" t] by simp
  have sp: "split_segments ?n SEGMENT_TERMINATOR = [py_strip (normalize_edi_text ?n)]"
    using split_segments_single[OF terminator_not_space n1 n2] .
  obtain sg where sg: "parse_all_segments [py_strip (normalize_edi_text ?n)] = [sg]"
      "s_line sg = 1" "s_raw sg = py_strip (normalize_edi_text ?n)"
    using parse_all_segments_single[of "py_strip (normalize_edi_text ?n)"] by blast
  have "parse_text t = Inr (build_parsed_structure [py_strip (normalize_edi_text ?n)])"
    using ne sp by (simp add: parse_text_def Let_def)
  thus ?thesis using sg by (simp add: build_parsed_structure_def Let_def)
qed

text \<open>
  C4, as the code has it. A text of whitespace only (the empty text included) fails with
  the empty-input error. Parsing fails exactly when the normalised text yields zero
  segments, and that is exactly when every character of the text is whitespace or the
  segment terminator. A text without any terminator is not rejected for that: if it holds
  a non-whitespace character it parses, as exactly one segment, on line 1, holding the
  whole normalised text.
\<close>

theorem parse_text_fails_iff:
  "((\<forall>c \<in> set t. is_space c) \<longrightarrow> parse_text t = Inl (ValueError ''EDI text is empty''))
   \<and> (isl (parse_text t) \<longleftrightarrow> split_segments (normalize_edi_text t) SEGMENT_TERMINATOR = [])
   \<and> (isl (parse_text t) \<longleftrightarrow> (\<forall>c \<in> set t. is_space c \<or> c = SEGMENT_TERMINATOR))
   \<and> (SEGMENT_TERMINATOR \<notin> set t \<and> \<not> (\<forall>c \<in> set t. is_space c)
      \<longrightarrow> \<not> isl (parse_text t)
          \<and> length (p_segments (projr (parse_text t))) = 1
          \<and> map s_line (p_segments (projr (parse_text t))) = [1]
          \<and> map s_raw (p_segments (projr (parse_text t)))
              = [py_strip (normalize_edi_text (normalize_edi_text t))])"
proof -
  have a: "(\<forall>c \<in> set t. is_space c) \<longrightarrow> parse_text t = Inl (ValueError ''EDI text is empty'')"
    by (simp add: parse_text_def py_strip_nil_iff)
  have s: "split_segments (normalize_edi_text t) SEGMENT_TERMINATOR = []
             \<longleftrightarrow> (\<forall>c \<in> set t. is_space c \<or> c = SEGMENT_TERMINATOR)"
    by (simp add: split_segments_nil_iff normalize_space)
  have b: "isl (parse_text t) \<longleftrightarrow> split_segments (normalize_edi_text t) SEGMENT_TERMINATOR = []"
  proof (cases "py_strip t = []")
    case True
    hence "\<forall>c \<in> set t. is_space c" by (simp add: py_strip_nil_iff)
    hence "split_segments (normalize_edi_text t) SEGMENT_TERMINATOR = []" using s by blast
    thus ?thesis using True by (simp add: parse_text_def)
  next
    case False
    hence "t \<noteq> []" by (auto simp: py_strip_def)
    thus ?thesis using False by (simp add: parse_text_def Let_def)
  qed
  show ?thesis using a b s parse_text_single[of t] by blast
qed

theorem parse_text_fails_iff_witness:
  "list_all is_space [CHR 0x20, CHR 0x0A, CHR 0xA0]
   \<and> parse_text [CHR 0x20, CHR 0x0A, CHR 0xA0] = Inl (ValueError ''EDI text is empty'')
   \<and> list_all (\<lambda>c. is_space c \<or> c = SEGMENT_TERMINATOR) '' ~~ ''
   \<and> isl (parse_text '' ~~ '')
   \<and> SEGMENT_TERMINATOR \<notin> set ''N1*ST''
   \<and> \<not> list_all is_space ''N1*ST''
   \<and> length (p_segments (projr (parse_text ''N1*ST''))) = 1"
proof -
  have a: "\<forall>c \<in> set [CHR 0x20, CHR 0x0A, CHR 0xA0]. is_space c"
    by (simp add: is_space_def)
  have b: "\<forall>c \<in> set '' ~~ ''. is_space c \<or> c = SEGMENT_TERMINATOR"
    by (simp add: is_space_def SEGMENT_TERMINATOR_def)
  have c: "SEGMENT_TERMINATOR \<notin> set ''N1*ST''" "\<not> (\<forall>c \<in> set ''N1*ST''. is_space c)"
    by (simp_all add: is_space_def SEGMENT_TERMINATOR_def)
  have "parse_text [CHR 0x20, CHR 0x0A, CHR 0xA0] = Inl (ValueError ''EDI text is empty'')"
    using a parse_text_fails_iff [of "[CHR 0x20, CHR 0x0A, CHR 0xA0]"] by blast
  moreover have "isl (parse_text '' ~~ '')"
    using b parse_text_fails_iff [of "'' ~~ ''"] by blast
  moreover have "length (p_segments (projr (parse_text ''N1*ST''))) = 1"
    using c parse_text_fails_iff [of "''N1*ST''"] by blast
  ultimately show ?thesis
    using a b c by (simp add: list_all_iff)
qed

text \<open>
  The claim as written fails: \<open>BEG*00\<close> has no segment terminator, and parsing it returns
  a document (of one segment) instead of failing.
\<close>

theorem parse_text_no_terminator_counterexample:
  "SEGMENT_TERMINATOR \<notin> set ''BEG*00''
   \<and> \<not> isl (parse_text ''BEG*00'')
   \<and> map s_elements (p_segments (projr (parse_text ''BEG*00''))) = [[''BEG'', ''00'']]"
  by code_simp

section \<open>Properties of the collector\<close>

lemma add_error_errors_other:
  "py_upper (severity a) \<noteq> ''ERROR'' \<Longrightarrow> errors (add_error a c) = errors c"
  by (simp add: add_error_def Let_def)

lemma add_errors_errors_other:
  "\<forall>a \<in> set adds. py_upper (severity a) \<noteq> ''ERROR'' \<Longrightarrow> errors (add_errors adds c) = errors c"
  unfolding add_errors_def
  by (induction adds arbitrary: c) (simp_all add: add_error_errors_other)

text \<open>
  C1. For every validation result, \<open>is_compliant\<close> holds exactly when \<open>error_count\<close> is
  zero, and adding any number of issues whose severity is not ERROR (WARNING, INFO or
  anything else, compared upper-cased) to the collector changes neither value.
\<close>

theorem compliance_iff_no_errors:
  "(is_compliant res \<longleftrightarrow> error_count res = 0)
   \<and> ((\<forall>a \<in> set adds. py_upper (severity a) \<noteq> ''ERROR'') \<longrightarrow>
        error_count (res\<lparr>vr_error_collector := add_errors adds (vr_error_collector res)\<rparr>)
          = error_count res
        \<and> is_compliant (res\<lparr>vr_error_collector := add_errors adds (vr_error_collector res)\<rparr>)
          = is_compliant res)"
  by (simp add: is_compliant_def error_count_def has_errors_def add_errors_errors_other)

theorem compliance_iff_no_errors_witness:
  "list_all (\<lambda>a. py_upper (severity a) \<noteq> ''ERROR'')
     [new_issue ''W1'' ''warning'' ''late'', new_issue ''I1'' ''INFO'' ''note'']
   \<and> error_count
        ((validate plain_lib sample_doc blank_ruleset)
           \<lparr>vr_error_collector :=
              add_errors [new_issue ''W1'' ''warning'' ''late'', new_issue ''I1'' ''INFO'' ''note'']
                (vr_error_collector (validate plain_lib sample_doc blank_ruleset))\<rparr>) = 0
   \<and> is_compliant
        ((validate plain_lib sample_doc blank_ruleset)
           \<lparr>vr_error_collector :=
              add_errors [new_issue ''W1'' ''warning'' ''late'', new_issue ''I1'' ''INFO'' ''note'']
                (vr_error_collector (validate plain_lib sample_doc blank_ruleset))\<rparr>)"
proof -
  have p: "\<forall>a \<in> set [new_issue ''W1'' ''warning'' ''late'', new_issue ''I1'' ''INFO'' ''note''].
             py_upper (severity a) \<noteq> ''ERROR''"
    by (simp add: new_issue_def py_upper_def upper_char_def)
  have z: "error_count (validate plain_lib sample_doc blank_ruleset) = 0"
    by (simp add: validate_def validate_category_def blank_ruleset_def error_count_def
        ErrorCollector_def)
  show ?thesis
    using p z
      compliance_iff_no_errors
        [of "validate plain_lib sample_doc blank_ruleset"
            "[new_issue ''W1'' ''warning'' ''late'', new_issue ''I1'' ''INFO'' ''note'']"]
    by (simp add: list_all_iff)
qed

section \<open>Properties of the evaluators\<close>

lemma add_rule_error_ok:
  "r_rule_id r = Some rid \<Longrightarrow> r_severity r = Some sev \<Longrightarrow>
   add_rule_error r mk c = (None, add_error (mk rid sev) c)"
  by (simp add: add_rule_error_def require_key_def)

lemma length_add_error:
  "length (get_all_errors (add_error a c)) = Suc (length (get_all_errors c))"
  by (simp add: add_error_def get_all_errors_def Let_def)



lemma py_str_int_2: "py_str_int 2 = ''2''"
  by code_simp

lemma py_int_3: "py_int ''3'' = Some 3"
  by code_simp

lemma sample_doc_segments:
  "p_segments sample_doc =
     [\<lparr>s_line = 1, s_segment_id = ''ST'', s_elements = [''ST'', ''850'', ''0001''],
       s_element_count = 3, s_raw = ''ST*850*0001''\<rparr>,
      \<lparr>s_line = 2, s_segment_id = ''BEG'',
       s_elements = [''BEG'', ''00'', ''NE'', ''PO1'', [], ''20231215''],
       s_element_count = 6, s_raw = ''BEG*00*NE*PO1**20231215''\<rparr>,
      \<lparr>s_line = 3, s_segment_id = ''PO1'', s_elements = [''PO1'', ''1'', ''5''],
       s_element_count = 3, s_raw = ''PO1*1*5''\<rparr>,
      \<lparr>s_line = 4, s_segment_id = ''PO1'', s_elements = [''PO1'', ''2'', ''7''],
       s_element_count = 3, s_raw = ''PO1*2*7''\<rparr>,
      ctt_segment,
      \<lparr>s_line = 6, s_segment_id = ''SE'', s_elements = [''SE'', ''1'', ''0001''],
       s_element_count = 3, s_raw = ''SE*1*0001''\<rparr>]"
  by (simp add: sample_doc_def build_parsed_structure_def parse_all_segments_def
      sample_segments_def split_elements_def ELEMENT_SEPARATOR_def ctt_segment_def Let_def)






lemma count_match_segment_mismatch:
  assumes "r_rule_id r = Some rid" "r_severity r = Some sev"
    and "target_element_of logic < int (length (s_elements tseg))"
    and "py_index (s_elements tseg) (target_element_of logic) = Inr v"
    and "py_int (py_strip v) = Some d" "d \<noteq> n"
  shows "count_match_segment r logic n tseg c
           = (None, add_error (count_mismatch_issue rid sev logic tseg (py_str_int n) (py_strip v)) c)"
  using assms
  by (simp add: count_match_segment_def target_element_of_def[symmetric] Let_def add_rule_error_ok
      new_issue_def count_mismatch_issue_def)

lemma count_match_segment_invalid:
  assumes "r_rule_id r = Some rid" "r_severity r = Some sev"
    and "target_element_of logic < int (length (s_elements tseg))"
    and "py_index (s_elements tseg) (target_element_of logic) = Inr v"
    and "py_int (py_strip v) = None"
  shows "count_match_segment r logic n tseg c
           = (None, add_error (invalid_count_issue rid sev logic tseg (py_strip v)) c)"
  using assms
  by (simp add: count_match_segment_def target_element_of_def[symmetric] Let_def add_rule_error_ok
      new_issue_def invalid_count_issue_def)

text \<open>
  C8. A count-match rule (carrying its id and severity) whose counted element exists on
  the target segment: on a document with exactly 2 source segments and that one target
  segment declaring \<open>"3"\<close>, validation adds exactly one mismatch issue with expected
  \<open>"2"\<close> and actual \<open>"3"\<close>; and whenever the declared value does not parse as an integer,
  the occurrence gets the invalid-value issue and no exception comes out.
\<close>

theorem count_match_reports:
  assumes "r_rule_id r = Some rid" and "r_severity r = Some sev"
    and "r_validation_logic r = Some logic" and "l_type logic = Some ''count_match''"
    and "target_element_of logic < int (length (s_elements tseg))"
    and "py_index (s_elements tseg) (target_element_of logic) = Inr v"
  shows "(length (filter (\<lambda>s. Some (s_segment_id s) = l_source_segment logic) (p_segments doc)) = 2
          \<and> filter (\<lambda>s. Some (s_segment_id s) = l_target_segment logic) (p_segments doc) = [tseg]
          \<and> py_strip v = ''3''
          \<longrightarrow> CrossSegmentValidator_validate doc [r] c
                = (None, add_error (count_mismatch_issue rid sev logic tseg ''2'' ''3'') c)
              \<and> expected_value (count_mismatch_issue rid sev logic tseg ''2'' ''3'') = Some ''2''
              \<and> actual_value (count_mismatch_issue rid sev logic tseg ''2'' ''3'') = Some ''3''
              \<and> length (get_all_errors (snd (CrossSegmentValidator_validate doc [r] c)))
                  = length (get_all_errors c) + 1)
         \<and> (py_int (py_strip v) = None
            \<longrightarrow> count_match_segment r logic n tseg c
                  = (None, add_error (invalid_count_issue rid sev logic tseg (py_strip v)) c)
                \<and> actual_value (invalid_count_issue rid sev logic tseg (py_strip v))
                    = Some (py_strip v)
                \<and> expected_value (invalid_count_issue rid sev logic tseg (py_strip v)) = None)"
proof -
  have one: "CrossSegmentValidator_validate doc [r] c
               = (None, add_error (count_mismatch_issue rid sev logic tseg ''2'' ''3'') c)"
    if h: "length (filter (\<lambda>s. Some (s_segment_id s) = l_source_segment logic) (p_segments doc)) = 2"
          "filter (\<lambda>s. Some (s_segment_id s) = l_target_segment logic) (p_segments doc) = [tseg]"
          "py_strip v = ''3''"
  proof -
    have "count_match_segment r logic 2 tseg c
            = (None, add_error (count_mismatch_issue rid sev logic tseg (py_str_int 2) (py_strip v)) c)"
      using assms h py_int_3 by (intro count_match_segment_mismatch[where d=3]) simp_all
    hence "validate_count_match r (p_segments doc) logic c
            = (None, add_error (count_mismatch_issue rid sev logic tseg ''2'' ''3'') c)"
      using h by (simp add: validate_count_match_def py_str_int_2)
    thus ?thesis
      using assms by (simp add: CrossSegmentValidator_validate_def cross_segment_rule_def)
  qed
  have two: "count_match_segment r logic n tseg c
               = (None, add_error (invalid_count_issue rid sev logic tseg (py_strip v)) c)"
    if "py_int (py_strip v) = None"
    using assms that by (intro count_match_segment_invalid) simp_all
  show ?thesis
    using one two by (simp add: length_add_error count_mismatch_issue_def invalid_count_issue_def)
qed

lemma py_strip_3: "py_strip ''3'' = ''3''"
  by code_simp

lemma py_strip_three: "py_strip ''three'' = ''three''"
  by code_simp

lemma py_int_three: "py_int ''three'' = None"
  by code_simp

theorem count_match_reports_witness:
  "CrossSegmentValidator_validate sample_doc [ctt_count_rule] ErrorCollector
     = (None, add_error (count_mismatch_issue ''CTT_COUNT'' ''ERROR'' ctt_logic ctt_segment ''2'' ''3'')
                ErrorCollector)
   \<and> length (get_all_errors
        (snd (CrossSegmentValidator_validate sample_doc [ctt_count_rule] ErrorCollector))) = 1
   \<and> py_int (py_strip ''three'') = None
   \<and> count_match_segment ctt_count_rule ctt_logic 2 bad_ctt_segment ErrorCollector
       = (None, add_error (invalid_count_issue ''CTT_COUNT'' ''ERROR'' ctt_logic bad_ctt_segment ''three'')
                  ErrorCollector)"
proof -
  have k: "r_rule_id ctt_count_rule = Some ''CTT_COUNT''" "r_severity ctt_count_rule = Some ''ERROR''"
    "r_validation_logic ctt_count_rule = Some ctt_logic" "l_type ctt_logic = Some ''count_match''"
    by (simp_all add: ctt_count_rule_def ctt_logic_def blank_rule_def empty_logic_def)
  have t: "target_element_of ctt_logic = 1"
    by (simp add: target_element_of_def ctt_logic_def empty_logic_def)
  have g1: "target_element_of ctt_logic < int (length (s_elements ctt_segment))"
    "py_index (s_elements ctt_segment) (target_element_of ctt_logic) = Inr ''3''"
    by (simp_all add: t ctt_segment_def py_index_def)
  have g2: "target_element_of ctt_logic < int (length (s_elements bad_ctt_segment))"
    "py_index (s_elements bad_ctt_segment) (target_element_of ctt_logic) = Inr ''three''"
    by (simp_all add: t bad_ctt_segment_def py_index_def)
  have f: "length (filter (\<lambda>s. Some (s_segment_id s) = l_source_segment ctt_logic)
                    (p_segments sample_doc)) = 2"
    "filter (\<lambda>s. Some (s_segment_id s) = l_target_segment ctt_logic) (p_segments sample_doc)
       = [ctt_segment]"
    by (simp_all add: sample_doc_segments ctt_logic_def empty_logic_def ctt_segment_def)
  have n: "py_int (py_strip ''three'') = None"
    by (simp add: py_strip_three py_int_three)
  have p1: "CrossSegmentValidator_validate sample_doc [ctt_count_rule] ErrorCollector
     = (None, add_error (count_mismatch_issue ''CTT_COUNT'' ''ERROR'' ctt_logic ctt_segment ''2'' ''3'')
                ErrorCollector)
     \<and> length (get_all_errors
        (snd (CrossSegmentValidator_validate sample_doc [ctt_count_rule] ErrorCollector)))
        = length (get_all_errors ErrorCollector) + 1"
    using f py_strip_3 count_match_reports [OF k g1, of sample_doc ErrorCollector]
    by blast
  have p2: "count_match_segment ctt_count_rule ctt_logic 2 bad_ctt_segment ErrorCollector
       = (None, add_error (invalid_count_issue ''CTT_COUNT'' ''ERROR'' ctt_logic bad_ctt_segment
                             (py_strip ''three'')) ErrorCollector)"
    using n count_match_reports [OF k g2, of sample_doc ErrorCollector 2]
    by blast
  have z: "length (get_all_errors ErrorCollector) = 0"
    by (simp add: get_all_errors_def ErrorCollector_def)
  show ?thesis
    using p1 p2 n z by (simp only: py_strip_three) (simp add: length_add_error)
qed













text \<open>The window of the loop scan never holds more than 11 segments.\<close>

lemma scan_loop_bound:
  "length (scan_loop sgs t w acc) \<le> max (Suc (length acc)) 11"
  by (induction sgs t w acc rule: scan_loop.induct) (auto simp: Let_def)

text \<open>
  C6, evaluated on the code. The scan for the segments of the loop appends a segment and
  only then tests whether more than 10 are held, so the window holds up to 11 segments. In
  the sample document the N3 segment is the 11th segment after the triggering N1 (line 12,
  with ten REF segments before it); the scan collects it, the rule that requires N3 within
  the N1 loop counts it as found, and no issue is reported.
\<close>

theorem within_loop_window_eleven:
  "length (scan_loop (p_segments long_loop_doc) 1 ''N1'' []) = 11
   \<and> map s_segment_id (drop 10 (scan_loop (p_segments long_loop_doc) 1 ''N1'' [])) = [''N3'']
   \<and> map s_line (drop 10 (scan_loop (p_segments long_loop_doc) 1 ''N1'' [])) = [12]
   \<and> ConditionalRuleValidator_validate long_loop_doc [n3_in_loop_rule] ErrorCollector
       = (None, ErrorCollector)"
  by code_simp

section \<open>Properties of the orchestrator\<close>

lemma validate_collector:
  "vr_error_collector (validate lib doc rules)
     = run_categories doc (categories lib doc rules) ErrorCollector"
  by (simp add: validate_def categories_def run_categories_def Let_def)

lemma run_categories_append:
  "run_categories doc (xs @ ys) c = run_categories doc ys (run_categories doc xs c)"
  by (simp add: run_categories_def)

lemma run_categories_split:
  assumes "i < length cats" and "cats ! i = (v, rs, nm)"
  shows "run_categories doc (take (Suc i) cats) c
           = validate_category v doc rs nm (run_categories doc (take i cats) c)"
    and "run_categories doc cats c
           = run_categories doc (drop (Suc i) cats) (run_categories doc (take (Suc i) cats) c)"
proof -
  have "take (Suc i) cats = take i cats @ [cats ! i]"
    using assms(1) by (simp add: take_Suc_conv_app_nth)
  thus "run_categories doc (take (Suc i) cats) c
           = validate_category v doc rs nm (run_categories doc (take i cats) c)"
    using assms(2) by (simp add: run_categories_append) (simp add: run_categories_def)
  have "cats = take (Suc i) cats @ drop (Suc i) cats" by simp
  thus "run_categories doc cats c
           = run_categories doc (drop (Suc i) cats) (run_categories doc (take (Suc i) cats) c)"
    using run_categories_append[of doc "take (Suc i) cats" "drop (Suc i) cats" c] by simp
qed

lemma categories_no_rules:
  assumes "i < length (categories lib doc rules)"
    and "categories lib doc rules ! i = (v, rs, nm)"
  shows "v doc [] c = (None, c)"
proof -
  have "i = 0 \<or> i = 1 \<or> i = 2 \<or> i = 3"
    using assms(1) by (auto simp: categories_def)
  thus ?thesis
    using assms(2)
    by (auto simp: categories_def RequiredSegmentValidator_validate_def
        ElementValidator_validate_def ConditionalRuleValidator_validate_def
        CrossSegmentValidator_validate_def)
qed

lemma system_error_upper: "py_upper ''ERROR'' = ''ERROR''"
  by (simp add: py_upper_def upper_char_def)

lemma add_system_error:
  "add_error (system_error nm e) c = c\<lparr>errors := errors c @ [system_error nm e]\<rparr>"
  by (simp add: add_error_def system_error_def new_issue_def ValidationError_def
      system_error_upper)

text \<open>
  C7. When the evaluator of a category raises during a validation run, the orchestrator
  catches the exception at that category: the collector, as the evaluator left it, gets
  exactly one more issue, in its ERROR list, with rule id SYSTEM_ERROR, severity ERROR and
  a message that names the category; the remaining categories are then run on that
  collector, and \<open>validate\<close> returns the result holding it.
\<close>

theorem evaluator_exception_contained:
  assumes "i < length (categories lib doc rules)"
    and "categories lib doc rules ! i = (validator, rs, category_name)"
    and "validator doc rs (run_categories doc (take i (categories lib doc rules)) ErrorCollector)
           = (Some e, c_raised)"
  shows "run_categories doc (take (Suc i) (categories lib doc rules)) ErrorCollector
           = add_error (system_error category_name e) c_raised
         \<and> errors (add_error (system_error category_name e) c_raised)
             = errors c_raised @ [system_error category_name e]
         \<and> warnings (add_error (system_error category_name e) c_raised) = warnings c_raised
         \<and> info (add_error (system_error category_name e) c_raised) = info c_raised
         \<and> rule_id (system_error category_name e) = ''SYSTEM_ERROR''
         \<and> severity (system_error category_name e) = ''ERROR''
         \<and> (\<exists>pre post. message (system_error category_name e) = pre @ category_name @ post)
         \<and> vr_error_collector (validate lib doc rules)
             = run_categories doc (drop (Suc i) (categories lib doc rules))
                 (add_error (system_error category_name e) c_raised)"
proof -
  let ?cats = "categories lib doc rules"
  let ?before = "run_categories doc (take i ?cats) ErrorCollector"
  have ne: "rs \<noteq> []"
    using categories_no_rules[OF assms(1,2), of ?before] assms(3) by auto
  have caught: "validate_category validator doc rs category_name ?before
                  = add_error (system_error category_name e) c_raised"
    using ne assms(3) by (simp add: validate_category_def)
  have step: "run_categories doc (take (Suc i) ?cats) ErrorCollector
                = add_error (system_error category_name e) c_raised"
    using run_categories_split(1)[OF assms(1,2)] caught by simp
  have rest: "vr_error_collector (validate lib doc rules)
                = run_categories doc (drop (Suc i) ?cats)
                    (add_error (system_error category_name e) c_raised)"
    using run_categories_split(2)[OF assms(1,2), of doc ErrorCollector] step
    by (simp add: validate_collector)
  have msg: "\<exists>pre post. message (system_error category_name e) = pre @ category_name @ post"
    by (rule exI[of _ "''System error during ''"], rule exI[of _ "'' validation: '' @ str_exn e"])
       (simp add: system_error_def new_issue_def)
  show ?thesis
    using step rest msg
    by (simp add: add_system_error) (simp add: system_error_def new_issue_def)
qed

theorem evaluator_exception_contained_witness:
  "RequiredSegmentValidator_validate sample_doc [nodesc_rule] ErrorCollector
     = (Some (KeyError ''description''), ErrorCollector)
   \<and> errors (vr_error_collector (validate plain_lib sample_doc faulty_ruleset))
       = [system_error ''Required Segments'' (KeyError ''description''),
          count_mismatch_issue ''CTT_COUNT'' ''ERROR'' ctt_logic ctt_segment ''2'' ''3'']"
proof -
  have raised: "RequiredSegmentValidator_validate sample_doc [nodesc_rule] ErrorCollector
                  = (Some (KeyError ''description''), ErrorCollector)"
    by code_simp
  have i: "(0::nat) < length (categories plain_lib sample_doc faulty_ruleset)"
    by (simp add: categories_def)
  have c: "categories plain_lib sample_doc faulty_ruleset ! 0
             = (RequiredSegmentValidator_validate, [nodesc_rule], ''Required Segments'')"
    by (simp add: categories_def faulty_ruleset_def blank_ruleset_def)
  have r: "RequiredSegmentValidator_validate sample_doc [nodesc_rule]
             (run_categories sample_doc (take 0 (categories plain_lib sample_doc faulty_ruleset))
                ErrorCollector) = (Some (KeyError ''description''), ErrorCollector)"
    using raised by (simp add: run_categories_def)
  have "vr_error_collector (validate plain_lib sample_doc faulty_ruleset)
          = run_categories sample_doc (drop (Suc 0) (categories plain_lib sample_doc faulty_ruleset))
              (add_error (system_error ''Required Segments'' (KeyError ''description''))
                 ErrorCollector)"
    using evaluator_exception_contained [OF i c r] by blast
  also have "\<dots> = \<lparr>errors = [system_error ''Required Segments'' (KeyError ''description''),
          count_mismatch_issue ''CTT_COUNT'' ''ERROR'' ctt_logic ctt_segment ''2'' ''3''],
          warnings = [], info = []\<rparr>"
    by code_simp
  finally show ?thesis using raised by simp
qed

section \<open>Properties of tier merging\<close>

lemma set_update_sub: "p \<in> set (AList.update k v m) \<Longrightarrow> p = (k, v) \<or> p \<in> set m"
  by (induction m) (auto split: if_splits)

lemma well_keyed_insert: "well_keyed m \<Longrightarrow> well_keyed (insert_rule r m)"
  unfolding well_keyed_def insert_rule_def
  by (auto split: option.splits dest!: set_update_sub simp: distinct_update)

lemma well_keyed_fold: "well_keyed m \<Longrightarrow> well_keyed (fold insert_rule rs m)"
  by (induction rs arbitrary: m) (simp_all add: well_keyed_insert)

lemma well_keyed_nil: "well_keyed []"
  by (simp add: well_keyed_def)

lemma alist_eqI:
  "distinct (map fst xs) \<Longrightarrow> map fst xs = map fst ys \<Longrightarrow> map_of xs = map_of ys \<Longrightarrow> xs = ys"
proof (induction xs arbitrary: ys)
  case Nil
  then show ?case by simp
next
  case (Cons x xs)
  then obtain y ys' where ys: "ys = y # ys'" by (cases ys) auto
  have k: "fst x = fst y" and ks: "map fst xs = map fst ys'"
    using Cons.prems(2) ys by simp_all
  have "map_of (x # xs) (fst x) = map_of ys (fst x)" by (rule fun_cong[OF Cons.prems(3)])
  hence v: "snd x = snd y" using ys k by simp
  have xy: "x = y" using k v by (simp add: prod_eq_iff)
  have nx: "fst x \<notin> fst ` set xs" using Cons.prems(1) by simp
  have "map_of xs = map_of ys'"
  proof
    fix a
    show "map_of xs a = map_of ys' a"
    proof (cases "a = fst x")
      case True
      hence "map_of xs a = None" using nx by (simp add: map_of_eq_None_iff)
      moreover have "map_of ys' a = None"
        using nx ks True by (metis map_of_eq_None_iff set_map)
      ultimately show ?thesis by simp
    next
      case False
      have "map_of (x # xs) a = map_of ys a" by (rule fun_cong[OF Cons.prems(3)])
      hence "map_of (x # xs) a = map_of (y # ys') a" using ys by simp
      thus ?thesis using False k by (cases x, cases y) (simp split: if_splits)
    qed
  qed
  hence "xs = ys'" using Cons.IH[of ys'] Cons.prems(1) ks by simp
  thus ?case using xy ys by simp
qed

lemma insert_rule_keys_present:
  "(\<And>k. r_rule_id r = Some k \<Longrightarrow> k \<noteq> [] \<Longrightarrow> k \<in> fst ` set m)
   \<Longrightarrow> map fst (insert_rule r m) = map fst m"
  by (auto simp: insert_rule_def update_keys split: option.splits)

lemma fold_insert_keys_present:
  "(\<And>r k. r \<in> set rs \<Longrightarrow> r_rule_id r = Some k \<Longrightarrow> k \<noteq> [] \<Longrightarrow> k \<in> fst ` set m)
   \<Longrightarrow> map fst (fold insert_rule rs m) = map fst m"
proof (induction rs arbitrary: m)
  case Nil
  show ?case by simp
next
  case (Cons r rs)
  have a: "map fst (insert_rule r m) = map fst m"
    using Cons.prems[of r] by (intro insert_rule_keys_present) simp
  have "map fst (fold insert_rule rs (insert_rule r m)) = map fst (insert_rule r m)"
  proof (rule Cons.IH)
    fix r' k
    assume "r' \<in> set rs" "r_rule_id r' = Some k" "k \<noteq> []"
    hence "k \<in> fst ` set m" using Cons.prems[of r' k] by simp
    thus "k \<in> fst ` set (insert_rule r m)" using a by (metis set_map)
  qed
  thus ?case using a by simp
qed

lemma insert_rule_keys_mono: "k \<in> fst ` set m \<Longrightarrow> k \<in> fst ` set (insert_rule r m)"
  by (auto simp: insert_rule_def dom_update split: option.splits)

lemma fold_insert_keys_mono: "k \<in> fst ` set m \<Longrightarrow> k \<in> fst ` set (fold insert_rule rs m)"
  by (induction rs arbitrary: m) (simp_all add: insert_rule_keys_mono)

lemma fold_insert_keys_has:
  "r \<in> set rs \<Longrightarrow> r_rule_id r = Some k \<Longrightarrow> k \<noteq> [] \<Longrightarrow> k \<in> fst ` set (fold insert_rule rs m)"
proof (induction rs arbitrary: m)
  case Nil
  then show ?case by simp
next
  case (Cons x rs)
  show ?case
  proof (cases "r \<in> set rs")
    case True
    then show ?thesis using Cons by simp
  next
    case False
    hence "x = r" using Cons.prems(1) by simp
    hence "k \<in> fst ` set (insert_rule x m)"
      using Cons.prems by (simp add: insert_rule_def dom_update)
    thus ?thesis by (simp add: fold_insert_keys_mono)
  qed
qed

lemma map_of_insert_rule: "map_of (insert_rule r m) = map_of m ++ map_of (insert_rule r [])"
  by (auto simp: insert_rule_def update_conv' split: option.splits)

lemma map_of_fold_insert:
  "map_of (fold insert_rule rs m) = map_of m ++ map_of (fold insert_rule rs [])"
proof (induction rs arbitrary: m)
  case Nil
  show ?case by simp
next
  case (Cons r rs)
  have "map_of (fold insert_rule (r # rs) m)
          = map_of (insert_rule r m) ++ map_of (fold insert_rule rs [])"
    using Cons.IH[of "insert_rule r m"] by simp
  also have "\<dots> = map_of m ++ (map_of (insert_rule r []) ++ map_of (fold insert_rule rs []))"
    using map_of_insert_rule[of r m] by (simp del: map_of.simps)
  also have "map_of (insert_rule r []) ++ map_of (fold insert_rule rs [])
               = map_of (fold insert_rule (r # rs) [])"
    using Cons.IH[of "insert_rule r []"] by simp
  finally show ?case .
qed

lemma fold_insert_idem:
  assumes "distinct (map fst m)"
  shows "fold insert_rule rs (fold insert_rule rs m) = fold insert_rule rs m"
proof (rule alist_eqI)
  have wk: "\<And>m. distinct (map fst m) \<Longrightarrow> distinct (map fst (fold insert_rule rs m))"
  proof -
    fix m :: "(string \<times> rule) list"
    assume "distinct (map fst m)"
    thus "distinct (map fst (fold insert_rule rs m))"
      by (induction rs arbitrary: m)
         (auto simp: insert_rule_def distinct_update split: option.splits)
  qed
  show "distinct (map fst (fold insert_rule rs (fold insert_rule rs m)))"
    using wk[OF wk[OF assms]] .
  show "map fst (fold insert_rule rs (fold insert_rule rs m)) = map fst (fold insert_rule rs m)"
    by (rule fold_insert_keys_present) (rule fold_insert_keys_has)
  show "map_of (fold insert_rule rs (fold insert_rule rs m)) = map_of (fold insert_rule rs m)"
  proof -
    have twice: "\<And>a b :: string \<Rightarrow> rule option. (a ++ b) ++ b = a ++ b"
      by (auto simp: map_add_def fun_eq_iff split: option.splits)
    show ?thesis
      using map_of_fold_insert[of rs "fold insert_rule rs m"] map_of_fold_insert[of rs m] twice
      by simp
  qed
qed

lemma update_fresh: "k \<notin> fst ` set m \<Longrightarrow> AList.update k v m = m @ [(k, v)]"
  by (induction m) auto

lemma fold_insert_rebuild:
  "well_keyed (m0 @ m) \<Longrightarrow> fold insert_rule (map snd m) m0 = m0 @ m"
proof (induction m arbitrary: m0)
  case Nil
  show ?case by simp
next
  case (Cons p m)
  obtain k r where p: "p = (k, r)" by (cases p)
  have id: "r_rule_id r = Some k" "k \<noteq> []" and fresh: "k \<notin> fst ` set m0"
    using Cons.prems p by (auto simp: well_keyed_def)
  have "insert_rule r m0 = m0 @ [(k, r)]"
    using id fresh by (simp add: insert_rule_def update_fresh)
  moreover have "well_keyed ((m0 @ [(k, r)]) @ m)" using Cons.prems p by simp
  ultimately show ?case using Cons.IH[of "m0 @ [(k, r)]"] p by simp
qed

lemma merge_category_no_retailer:
  "merge_category cs ds [] dt = map snd (fold insert_rule ds (fold insert_rule cs []))"
  by (simp add: merge_category_def category_rules_of_def)

lemma merge_category_idem:
  "merge_category (merge_category cs ds [] dt) ds [] dt = merge_category cs ds [] dt"
proof -
  let ?M = "fold insert_rule ds (fold insert_rule cs [])"
  have wk: "well_keyed ?M" by (simp add: well_keyed_fold well_keyed_nil)
  have rb: "fold insert_rule (map snd ?M) [] = ?M"
    using fold_insert_rebuild[of "[]" ?M] wk by simp
  have "distinct (map fst (fold insert_rule cs []))"
    using well_keyed_fold[OF well_keyed_nil, of cs] by (simp add: well_keyed_def)
  hence "fold insert_rule ds ?M = ?M" by (rule fold_insert_idem)
  thus ?thesis by (simp add: merge_category_no_retailer rb)
qed

lemma merge_rulesets_no_retailer:
  "merge_rulesets core doc empty_tier dt rt = Inr m \<Longrightarrow>
   ruleset_get m cat = merge_category (tier_get core cat) (tier_get doc cat) [] dt"
  by (cases cat) (auto simp: merge_rulesets_def empty_tier_def Let_def)

lemma merge_rulesets_no_retailer_ok: "\<not> isl (merge_rulesets core doc empty_tier dt rt)"
  by (simp add: merge_rulesets_def empty_tier_def Let_def)

lemma tier_get_of_ruleset: "tier_get (tier_of_ruleset m) cat = ruleset_get m cat"
  by (cases cat) (simp_all add: tier_of_ruleset_def empty_tier_def)

text \<open>
  C2. Merging is keyed by rule id, later tiers overwriting earlier ones, so merging the
  document tier in once more changes nothing: for every core and document tier, the merge
  of [core, doc] succeeds, re-merging its result with the same document tier succeeds, and
  every category of the second result is the same list of rules, hence the same mapping
  from rule id to rule, as in the first; the dictionary of a category is also unchanged
  when the document tier's rules are written into it a second time.
\<close>

theorem merge_override_idempotent:
  "\<not> isl (merge_rulesets core doc empty_tier dt rt)
   \<and> \<not> isl (merge_rulesets (tier_of_ruleset (projr (merge_rulesets core doc empty_tier dt rt)))
              doc empty_tier dt rt)
   \<and> ruleset_get
       (projr (merge_rulesets (tier_of_ruleset (projr (merge_rulesets core doc empty_tier dt rt)))
                 doc empty_tier dt rt)) cat
       = ruleset_get (projr (merge_rulesets core doc empty_tier dt rt)) cat
   \<and> rules_by_id (ruleset_get
       (projr (merge_rulesets (tier_of_ruleset (projr (merge_rulesets core doc empty_tier dt rt)))
                 doc empty_tier dt rt)) cat)
       = rules_by_id (ruleset_get (projr (merge_rulesets core doc empty_tier dt rt)) cat)
   \<and> fold insert_rule (tier_get doc cat)
        (category_rules_of (tier_get core cat) (tier_get doc cat) [] dt)
       = category_rules_of (tier_get core cat) (tier_get doc cat) [] dt"
proof -
  let ?r1 = "merge_rulesets core doc empty_tier dt rt"
  obtain m where m: "?r1 = Inr m"
    using merge_rulesets_no_retailer_ok[of core doc dt rt] by (cases ?r1) auto
  let ?r2 = "merge_rulesets (tier_of_ruleset m) doc empty_tier dt rt"
  obtain m' where m': "?r2 = Inr m'"
    using merge_rulesets_no_retailer_ok[of "tier_of_ruleset m" doc dt rt] by (cases ?r2) auto
  have "ruleset_get m' cat
          = merge_category (tier_get (tier_of_ruleset m) cat) (tier_get doc cat) [] dt"
    using merge_rulesets_no_retailer[OF m'] .
  also have "\<dots> = merge_category (merge_category (tier_get core cat) (tier_get doc cat) [] dt)
                      (tier_get doc cat) [] dt"
    using merge_rulesets_no_retailer[OF m, of cat] by (simp add: tier_get_of_ruleset)
  also have "\<dots> = ruleset_get m cat"
    using merge_rulesets_no_retailer[OF m, of cat] by (simp add: merge_category_idem)
  finally have eq: "ruleset_get m' cat = ruleset_get m cat" .
  have "distinct (map fst (fold insert_rule (tier_get core cat) []))"
    using well_keyed_fold[OF well_keyed_nil, of "tier_get core cat"] by (simp add: well_keyed_def)
  hence idem: "fold insert_rule (tier_get doc cat)
        (category_rules_of (tier_get core cat) (tier_get doc cat) [] dt)
       = category_rules_of (tier_get core cat) (tier_get doc cat) [] dt"
    by (simp add: category_rules_of_def fold_insert_idem)
  show ?thesis using m m' eq idem by simp
qed

theorem merge_override_idempotent_witness:
  "ruleset_get
     (projr (merge_rulesets
               (tier_of_ruleset (projr (merge_rulesets sample_core sample_doc_tier empty_tier ''850'' None)))
               sample_doc_tier empty_tier ''850'' None)) Required_segments
     = [core_isa_rule, doc_n1_rule]
   \<and> ruleset_get (projr (merge_rulesets sample_core sample_doc_tier empty_tier ''850'' None))
       Required_segments = [core_isa_rule, doc_n1_rule]"
proof -
  have ids: "r_rule_id core_isa_rule = Some ''REQ_ISA''" "r_rule_id doc_n1_rule = Some ''REQ_N1''"
    by (simp_all add: core_isa_rule_def doc_n1_rule_def n1_required_rule_def blank_rule_def)
  have first: "ruleset_get (projr (merge_rulesets sample_core sample_doc_tier empty_tier ''850'' None))
                 Required_segments = [core_isa_rule, doc_n1_rule]"
    by (simp add: merge_rulesets_def Let_def empty_tier_def sample_core_def sample_doc_tier_def
        merge_category_def category_rules_of_def insert_rule_def ids)
  show ?thesis
    using first
      merge_override_idempotent [of sample_core sample_doc_tier "''850''" None Required_segments]
    by simp
qed

lemma insert_retailer_skip: "\<not> applies_to_doc dt r \<Longrightarrow> insert_retailer_rule dt r m = m"
  by (simp add: insert_retailer_rule_def split: option.splits)

lemma fold_retailer_removeAll:
  "\<not> applies_to_doc dt r \<Longrightarrow>
   fold (insert_retailer_rule dt) (removeAll r rs) m = fold (insert_retailer_rule dt) rs m"
  by (induction rs arbitrary: m) (auto simp: insert_retailer_skip)

lemma merge_category_removeAll:
  "\<not> applies_to_doc dt r \<Longrightarrow>
   merge_category cs ds (removeAll r rs) dt = merge_category cs ds rs dt"
  by (simp add: merge_category_def category_rules_of_def fold_retailer_removeAll)

lemma set_fold_insert_rule:
  "p \<in> set (fold insert_rule rs m) \<Longrightarrow> p \<in> set m \<or> snd p \<in> set rs"
proof (induction rs arbitrary: m)
  case Nil
  then show ?case by simp
next
  case (Cons r rs)
  have "p \<in> set (insert_rule r m) \<or> snd p \<in> set rs"
    using Cons.IH[of "insert_rule r m"] Cons.prems by simp
  moreover have "p \<in> set (insert_rule r m) \<Longrightarrow> p \<in> set m \<or> snd p = r"
    by (auto simp: insert_rule_def split: option.splits if_splits dest: set_update_sub)
  ultimately show ?case by auto
qed

lemma set_fold_insert_retailer:
  "p \<in> set (fold (insert_retailer_rule dt) rs m) \<Longrightarrow>
   p \<in> set m \<or> (snd p \<in> set rs \<and> applies_to_doc dt (snd p))"
proof (induction rs arbitrary: m)
  case Nil
  then show ?case by simp
next
  case (Cons r rs)
  have "p \<in> set (insert_retailer_rule dt r m) \<or> (snd p \<in> set rs \<and> applies_to_doc dt (snd p))"
    using Cons.IH[of "insert_retailer_rule dt r m"] Cons.prems by simp
  moreover have "p \<in> set (insert_retailer_rule dt r m)
                  \<Longrightarrow> p \<in> set m \<or> (snd p = r \<and> applies_to_doc dt r)"
    by (auto simp: insert_retailer_rule_def split: option.splits if_splits dest: set_update_sub)
  ultimately show ?case by auto
qed

lemma merge_category_origin:
  assumes "x \<in> set (merge_category cs ds rs dt)"
  shows "x \<in> set cs \<or> x \<in> set ds \<or> (x \<in> set rs \<and> applies_to_doc dt x)"
proof -
  obtain p where p: "p \<in> set (category_rules_of cs ds rs dt)" "snd p = x"
    using assms by (auto simp: merge_category_def)
  have "p \<in> set (fold insert_rule ds (fold insert_rule cs [])) \<or> (x \<in> set rs \<and> applies_to_doc dt x)"
    using set_fold_insert_retailer[of p dt rs] p by (auto simp: category_rules_of_def)
  moreover have "p \<in> set (fold insert_rule ds (fold insert_rule cs [])) \<Longrightarrow> x \<in> set cs \<or> x \<in> set ds"
    using set_fold_insert_rule[of p ds "fold insert_rule cs []"] set_fold_insert_rule[of p cs "[]"] p
    by auto
  ultimately show ?thesis by blast
qed

lemma map_of_fold_retailer_other:
  "(\<And>x. x \<in> set rs \<Longrightarrow> applies_to_doc dt x \<Longrightarrow> r_rule_id x \<noteq> Some rid)
   \<Longrightarrow> map_of (fold (insert_retailer_rule dt) rs m) rid = map_of m rid"
proof (induction rs arbitrary: m)
  case Nil
  show ?case by simp
next
  case (Cons r rs)
  have "map_of (insert_retailer_rule dt r m) rid = map_of m rid"
    using Cons.prems[of r]
    by (auto simp: insert_retailer_rule_def update_conv' split: option.splits)
  thus ?case using Cons.IH[of "insert_retailer_rule dt r m"] Cons.prems by simp
qed

lemma tier_get_put: "tier_get (tier_put t cat rs) cat' = (if cat' = cat then rs else tier_get t cat')"
  by (cases cat; cases cat') simp_all

lemma tier_put_truthy: "tier_get t cat \<noteq> [] \<Longrightarrow> tier_truthy (tier_put t cat rs) = tier_truthy t"
  by (cases cat) (auto simp: tier_truthy_def split: option.splits)

lemma tier_put_other:
  "t_overrides (tier_put t cat rs) = t_overrides t"
  "t_segment_sequences (tier_put t cat rs) = t_segment_sequences t"
  "t_business_rules (tier_put t cat rs) = t_business_rules t"
  by (cases cat; simp)+

lemma merge_rulesets_cong:
  assumes "tier_truthy ret' = tier_truthy ret"
    and "\<And>cat. merge_category (tier_get core cat) (tier_get doc cat) (tier_get ret' cat) dt
               = merge_category (tier_get core cat) (tier_get doc cat) (tier_get ret cat) dt"
    and "t_overrides ret' = t_overrides ret"
    and "t_segment_sequences ret' = t_segment_sequences ret"
    and "t_business_rules ret' = t_business_rules ret"
  shows "merge_rulesets core doc ret' dt rt = merge_rulesets core doc ret dt rt"
  unfolding merge_rulesets_def
  by (simp only: assms)

text \<open>
  C3. A retailer rule with a non-empty "applies to" list that does not name the document
  type is not merged: the merge gives the same result as with the rule removed from the
  retailer tier; the merged category holds the rule only if the core or document tier
  holds the very same rule; and, when no applicable retailer rule of the category has its
  id, that id maps to what the merge of core and document alone maps it to (nothing, or
  the lower-tier rule).
\<close>

theorem excluded_retailer_rule_not_merged:
  assumes "r \<in> set (tier_get ret cat)"
    and "r_applies_to_doc_types r = Some ts" and "ts \<noteq> []" and "dt \<notin> set ts"
  shows "merge_rulesets core doc (tier_put ret cat (removeAll r (tier_get ret cat))) dt rt
           = merge_rulesets core doc ret dt rt
         \<and> (r \<in> set (merge_category (tier_get core cat) (tier_get doc cat) (tier_get ret cat) dt)
              \<longrightarrow> r \<in> set (tier_get core cat) \<or> r \<in> set (tier_get doc cat))
         \<and> (r_rule_id r = Some rid
              \<and> (\<forall>x \<in> set (tier_get ret cat). applies_to_doc dt x \<longrightarrow> r_rule_id x \<noteq> Some rid)
              \<longrightarrow> map_of (category_rules_of (tier_get core cat) (tier_get doc cat) (tier_get ret cat) dt) rid
                  = map_of (category_rules_of (tier_get core cat) (tier_get doc cat) [] dt) rid)"
proof -
  have na: "\<not> applies_to_doc dt r"
    using assms by (simp add: applies_to_doc_def)
  let ?ret' = "tier_put ret cat (removeAll r (tier_get ret cat))"
  have ne: "tier_get ret cat \<noteq> []" using assms(1) by auto
  have cats: "\<And>cat'. merge_category (tier_get core cat') (tier_get doc cat') (tier_get ?ret' cat') dt
               = merge_category (tier_get core cat') (tier_get doc cat') (tier_get ret cat') dt"
    using na by (simp add: tier_get_put merge_category_removeAll)
  have A: "merge_rulesets core doc ?ret' dt rt = merge_rulesets core doc ret dt rt"
    by (rule merge_rulesets_cong) (simp_all add: tier_put_truthy[OF ne] cats tier_put_other)
  have B: "r \<in> set (merge_category (tier_get core cat) (tier_get doc cat) (tier_get ret cat) dt)
              \<longrightarrow> r \<in> set (tier_get core cat) \<or> r \<in> set (tier_get doc cat)"
    using merge_category_origin[of r "tier_get core cat" "tier_get doc cat" "tier_get ret cat" dt] na
    by blast
  have C: "map_of (category_rules_of (tier_get core cat) (tier_get doc cat) (tier_get ret cat) dt) rid
             = map_of (category_rules_of (tier_get core cat) (tier_get doc cat) [] dt) rid"
    if h: "\<forall>x \<in> set (tier_get ret cat). applies_to_doc dt x \<longrightarrow> r_rule_id x \<noteq> Some rid"
  proof -
    have "\<And>x. x \<in> set (tier_get ret cat) \<Longrightarrow> applies_to_doc dt x \<Longrightarrow> r_rule_id x \<noteq> Some rid"
      using h by auto
    thus ?thesis
      by (simp add: category_rules_of_def map_of_fold_retailer_other)
  qed
  show ?thesis using A B C by blast
qed

theorem excluded_retailer_rule_not_merged_witness:
  "retailer_n1_rule \<in> set (tier_get sample_retailer Required_segments)
   \<and> r_applies_to_doc_types retailer_n1_rule = Some [''856'']
   \<and> ''850'' \<notin> set [''856'']
   \<and> merge_rulesets sample_core sample_doc_tier
        (tier_put sample_retailer Required_segments
           (removeAll retailer_n1_rule (tier_get sample_retailer Required_segments)))
        ''850'' (Some ''walmart'')
       = merge_rulesets sample_core sample_doc_tier sample_retailer ''850'' (Some ''walmart'')
   \<and> retailer_n1_rule
        \<notin> set (merge_category (tier_get sample_core Required_segments)
                  (tier_get sample_doc_tier Required_segments)
                  (tier_get sample_retailer Required_segments) ''850'')
   \<and> map_of (category_rules_of (tier_get sample_core Required_segments)
               (tier_get sample_doc_tier Required_segments)
               (tier_get sample_retailer Required_segments) ''850'') ''REQ_N1''
       = Some doc_n1_rule"
proof -
  have ids: "r_rule_id core_isa_rule = Some ''REQ_ISA''" "r_rule_id doc_n1_rule = Some ''REQ_N1''"
    "r_rule_id retailer_n1_rule = Some ''REQ_N1''"
    by (simp_all add: core_isa_rule_def doc_n1_rule_def retailer_n1_rule_def n1_required_rule_def
        blank_rule_def)
  have h1: "retailer_n1_rule \<in> set (tier_get sample_retailer Required_segments)"
    by (simp add: sample_retailer_def empty_tier_def)
  have h2: "r_applies_to_doc_types retailer_n1_rule = Some [''856'']"
    by (simp add: retailer_n1_rule_def)
  have h3: "[''856''] \<noteq> ([] :: string list)" "''850'' \<notin> set [''856'']"
    by simp_all
  have na: "\<forall>x \<in> set (tier_get sample_retailer Required_segments).
              applies_to_doc ''850'' x \<longrightarrow> r_rule_id x \<noteq> Some ''REQ_N1''"
    by (simp add: sample_retailer_def empty_tier_def applies_to_doc_def h2)
  have low: "retailer_n1_rule \<notin> set (tier_get sample_core Required_segments)"
    "retailer_n1_rule \<notin> set (tier_get sample_doc_tier Required_segments)"
    by (auto simp: sample_core_def sample_doc_tier_def empty_tier_def retailer_n1_rule_def
        core_isa_rule_def doc_n1_rule_def n1_required_rule_def blank_rule_def)
  have lower: "map_of (category_rules_of (tier_get sample_core Required_segments)
               (tier_get sample_doc_tier Required_segments) [] ''850'') ''REQ_N1''
       = Some doc_n1_rule"
    by (simp add: sample_core_def sample_doc_tier_def empty_tier_def category_rules_of_def
        insert_rule_def ids)
  note th = excluded_retailer_rule_not_merged
    [OF h1 h2 h3, of sample_core sample_doc_tier "Some ''walmart''" "''REQ_N1''"]
  have c1: "merge_rulesets sample_core sample_doc_tier
        (tier_put sample_retailer Required_segments
           (removeAll retailer_n1_rule (tier_get sample_retailer Required_segments)))
        ''850'' (Some ''walmart'')
       = merge_rulesets sample_core sample_doc_tier sample_retailer ''850'' (Some ''walmart'')"
    using th by blast
  have c2: "retailer_n1_rule
        \<notin> set (merge_category (tier_get sample_core Required_segments)
                  (tier_get sample_doc_tier Required_segments)
                  (tier_get sample_retailer Required_segments) ''850'')"
    using th low by blast
  have c3: "map_of (category_rules_of (tier_get sample_core Required_segments)
               (tier_get sample_doc_tier Required_segments)
               (tier_get sample_retailer Required_segments) ''850'') ''REQ_N1''
       = map_of (category_rules_of (tier_get sample_core Required_segments)
               (tier_get sample_doc_tier Required_segments) [] ''850'') ''REQ_N1''"
    using th na ids(3) by blast
  show ?thesis
    using h1 h2 h3(2) c1 c2 c3 lower by (simp only:) simp
qed

end
